theory Spec2Isabelle
  imports Complex_Main "HOL-Library.Word"
begin

section \<open>The note store of the Express server (server/index.js)\<close>

text \<open>
  The server keeps one \<open>Map\<close> from ids to entries. Each handler runs to its end without
  awaiting anything, so a handler is a function from the store (and the clock value it
  reads) to a reply and the store it leaves behind.

  JavaScript numbers are modelled exactly: finite numbers as \<open>real\<close>, with \<open>None\<close> for a
  value that \<open>Number.isFinite\<close> rejects. View counts are integers once \<open>Math.floor\<close> has
  run. The three configuration constants are read from the environment; they are a
  parameter of the model, taken to be integers, and \<open>default_config\<close> holds the defaults
  written in the source. A handler that reads the clock twice is given one value for
  both reads.
\<close>

record config =
  MAX_MINUTES :: int
  DEFAULT_VIEWS :: int
  MAX_VIEWS :: int

definition default_config :: config where
  "default_config = \<lparr> MAX_MINUTES = 60 * 24 * 7, DEFAULT_VIEWS = 10, MAX_VIEWS = 50 \<rparr>"

text \<open>
  A request body has the types of \<open>PersistPayload\<close>: \<open>id\<close> and \<open>encrypted\<close> are strings,
  \<open>burnAfterRead\<close> is a boolean, \<open>expiresInMinutes\<close> is a number (\<open>None\<close> when it is not
  finite). The \<open>maxViews\<close> field (\<open>maxViews?: number | null\<close>) is left out, \<open>null\<close>, or a
  finite number.
\<close>

datatype maxviews_arg = Absent | Null | Num real

text \<open>\<open>Number(maxViews)\<close>: \<open>undefined\<close> gives \<open>NaN\<close>, \<open>null\<close> gives 0.\<close>

fun to_number :: "maxviews_arg \<Rightarrow> real option" where
  "to_number Absent = None"
| "to_number Null = Some 0"
| "to_number (Num r) = Some r"

record PersistPayload =
  payload_id :: string
  payload_encrypted :: string
  expiresInMinutes :: "real option"
  payload_burnAfterRead :: bool
  maxViews :: maxviews_arg

text \<open>
  \<open>LocalEntry\<close> of the browser fallback has four fields; the server's entry has the same
  four and \<open>createdAt\<close>.
\<close>

record LocalEntry =
  encrypted :: string
  expiresAt :: real
  burnAfterRead :: bool
  remainingViews :: int

record entry = LocalEntry +
  createdAt :: int

type_synonym messageStore = "string \<rightharpoonup> entry"

datatype body =
    Message string
  | Created real "int option"
  | Served string real int
  | NoContent

datatype reply = Reply nat body

fun status :: "reply \<Rightarrow> nat" where
  "status (Reply c b) = c"

text \<open>The view budget computed by the POST handler (lines 111 to 125).\<close>

definition resolve_views :: "config \<Rightarrow> bool \<Rightarrow> maxviews_arg \<Rightarrow> int" where
  "resolve_views cfg burnFlag mv =
     (if \<not> burnFlag then
        (case to_number mv of
           Some parsedViews \<Rightarrow>
             min (min (max \<lfloor>parsedViews\<rfloor> 2) (max (DEFAULT_VIEWS cfg) 2)) (MAX_VIEWS cfg)
         | None \<Rightarrow> max (DEFAULT_VIEWS cfg) 2)
      else 1)"

text \<open>\<open>app.post('/api/message')\<close>; \<open>now\<close> is the value of \<open>Date.now()\<close>.\<close>

definition post_message :: "config \<Rightarrow> int \<Rightarrow> PersistPayload \<Rightarrow> messageStore \<Rightarrow> reply \<times> messageStore" where
  "post_message cfg now req store =
     (if length (payload_id req) < 6 \<or> length (payload_id req) > 36 then
        (Reply 400 (Message ''Invalid id supplied''), store)
      else if length (payload_encrypted req) = 0 \<or> length (payload_encrypted req) > 20000 then
        (Reply 400 (Message ''Encrypted payload is missing or too large''), store)
      else
        (case expiresInMinutes req of
           None \<Rightarrow> (Reply 400 (Message ''Expiry must be a positive number''), store)
         | Some minutes \<Rightarrow>
             if minutes \<le> 0 then
               (Reply 400 (Message ''Expiry must be a positive number''), store)
             else
               let safeMinutes = min minutes (of_int (MAX_MINUTES cfg));
                   expires = of_int now + safeMinutes * 60 * 1000;
                   burnFlag = payload_burnAfterRead req;
                   views = resolve_views cfg burnFlag (maxViews req)
               in (Reply 201 (Created expires (if burnFlag then None else Some views)),
                   store(payload_id req \<mapsto>
                     \<lparr> encrypted = payload_encrypted req, expiresAt = expires,
                       burnAfterRead = burnFlag, remainingViews = views,
                       createdAt = now \<rparr>))))"

text \<open>\<open>app.get('/api/message/:id')\<close>.\<close>

definition get_message :: "int \<Rightarrow> string \<Rightarrow> messageStore \<Rightarrow> reply \<times> messageStore" where
  "get_message now mid store =
     (case store mid of
        None \<Rightarrow> (Reply 404 (Message ''Message not found or already burned''), store)
      | Some e \<Rightarrow>
          if expiresAt e \<le> of_int now then
            (Reply 410 (Message ''Message expired''), store(mid := None))
          else if remainingViews e \<le> 0 then
            (Reply 404 (Message ''Message not found or already burned''), store(mid := None))
          else if burnAfterRead e then
            (Reply 200 (Served (encrypted e) (expiresAt e) 0), store(mid := None))
          else
            let e' = e\<lparr> remainingViews := max 0 (remainingViews e - 1) \<rparr>
            in (Reply 200 (Served (encrypted e') (expiresAt e') (remainingViews e')),
                if remainingViews e' \<le> 0 then store(mid := None) else store(mid \<mapsto> e')))"

text \<open>\<open>app.delete('/api/message/:id')\<close>.\<close>

definition delete_message :: "string \<Rightarrow> messageStore \<Rightarrow> reply \<times> messageStore" where
  "delete_message mid store =
     (if store mid = None then (Reply 404 (Message ''Message already gone''), store)
      else (Reply 204 NoContent, store(mid := None)))"

text \<open>The body of the \<open>setInterval\<close> callback: one pass over the whole map.\<close>

definition sweep :: "int \<Rightarrow> messageStore \<Rightarrow> messageStore" where
  "sweep now store =
     (\<lambda>mid. case store mid of
              None \<Rightarrow> None
            | Some e \<Rightarrow> if expiresAt e \<le> of_int now \<or> remainingViews e \<le> 0 then None else Some e)"


section \<open>The browser side of the store (lib/message-service.ts)\<close>

text \<open>
  \<open>response.ok\<close> of the Fetch API: the status is in the range 200 to 299.
\<close>

definition response_ok :: "reply \<Rightarrow> bool" where
  "response_ok r = (200 \<le> status r \<and> status r \<le> 299)"

text \<open>
  \<open>deleteRemote\<close> sends the DELETE request and throws unless the response is ok or has
  status 404. \<open>Inl\<close> carries the message of the thrown \<open>Error\<close>.
\<close>

definition deleteRemote :: "string \<Rightarrow> messageStore \<Rightarrow> (string + unit) \<times> messageStore" where
  "deleteRemote mid store =
     (let (response, store') = delete_message mid store
      in if \<not> response_ok response \<and> status response \<noteq> 404 then
           (Inl (case response of Reply c (Message m) \<Rightarrow> m | _ \<Rightarrow> ''Failed to delete note''), store')
         else (Inr (), store'))"

datatype servedBy = remote | local

datatype PersistResponse = PersistResponse real servedBy "int option"

datatype FetchResponse = FetchResponse string real servedBy "int option"

type_synonym localStore = "string \<rightharpoonup> LocalEntry"

definition clampViews :: "real \<Rightarrow> int" where
  "clampViews v = (let mn = 2; mx = 50 in min (max \<lfloor>v\<rfloor> mn) mx)"

definition pruneExpired :: "int \<Rightarrow> localStore \<Rightarrow> localStore" where
  "pruneExpired now store =
     (\<lambda>k. case store k of
            None \<Rightarrow> None
          | Some e \<Rightarrow>
              if expiresAt e \<le> of_int now then None
              else if \<not> burnAfterRead e \<and> remainingViews e \<le> 0 then None
              else Some e)"

text \<open>
  \<open>readStore\<close> parses the stash kept in \<open>localStorage\<close> and prunes it; the stash is
  modelled by the map it parses to. \<open>persistLocal\<close> multiplies \<open>expiresInMinutes\<close> without
  checking it; a value that is not finite is outside this model (it is read as 0).
\<close>

definition readStore :: "int \<Rightarrow> localStore \<Rightarrow> localStore" where
  "readStore now stash = pruneExpired now stash"

definition persistLocal :: "int \<Rightarrow> PersistPayload \<Rightarrow> localStore \<Rightarrow> PersistResponse \<times> localStore" where
  "persistLocal now payload stash =
     (let store = readStore now stash;
          views = (if payload_burnAfterRead payload then 1
                   else clampViews (case maxViews payload of Num v \<Rightarrow> v | _ \<Rightarrow> 10));
          expires = of_int now + (case expiresInMinutes payload of Some m \<Rightarrow> m | None \<Rightarrow> 0) * 60 * 1000;
          store' = store(payload_id payload \<mapsto>
                     \<lparr> encrypted = payload_encrypted payload, expiresAt = expires,
                       burnAfterRead = payload_burnAfterRead payload, remainingViews = views \<rparr>)
      in (PersistResponse expires local (if payload_burnAfterRead payload then None else Some views),
          store'))"

definition fetchLocal :: "int \<Rightarrow> string \<Rightarrow> localStore \<Rightarrow> (string + FetchResponse) \<times> localStore" where
  "fetchLocal now mid stash =
     (let store = readStore now stash
      in case store mid of
           None \<Rightarrow> (Inl ''Message is no longer available'', stash)
         | Some record \<Rightarrow>
             if expiresAt record \<le> of_int now then
               (Inl ''This link has expired'', store(mid := None))
             else if burnAfterRead record then
               (Inr (FetchResponse (encrypted record) (expiresAt record) local (Some 0)),
                store(mid := None))
             else
               let record' = record\<lparr> remainingViews := max 0 (remainingViews record - 1) \<rparr>;
                   remaining = remainingViews record'
               in (Inr (FetchResponse (encrypted record') (expiresAt record') local (Some remaining)),
                   if remaining \<le> 0 then store(mid := None) else store(mid \<mapsto> record')))"

definition deleteLocal :: "int \<Rightarrow> string \<Rightarrow> localStore \<Rightarrow> localStore" where
  "deleteLocal now mid stash =
     (let store = readStore now stash
      in if store mid \<noteq> None then store(mid := None) else stash)"

section \<open>Sequences of store requests\<close>

text \<open>Reads of one id, one after the other, at the given clock values.\<close>

fun reads :: "int list \<Rightarrow> string \<Rightarrow> messageStore \<Rightarrow> reply list \<times> messageStore" where
  "reads [] mid store = ([], store)"
| "reads (t # ts) mid store =
     (let (r, store') = get_message t mid store;
          (rs, store'') = reads ts mid store'
      in (r # rs, store''))"

text \<open>
  The requests that do not create an entry: a read, a delete, and a run of the sweep.
\<close>

datatype request = Get int string | Delete string | Sweep int

fun serve :: "request \<Rightarrow> messageStore \<Rightarrow> messageStore" where
  "serve (Get now mid) store = snd (get_message now mid store)"
| "serve (Delete mid) store = snd (delete_message mid store)"
| "serve (Sweep now) store = sweep now store"

fun serve_all :: "request list \<Rightarrow> messageStore \<Rightarrow> messageStore" where
  "serve_all [] store = store"
| "serve_all (q # qs) store = serve_all qs (serve q store)"

section \<open>The envelope codec (utils/encryption.ts)\<close>

unbundle bit_operations_syntax

text \<open>
  A \<open>WordArray\<close> of CryptoJS is modelled by the list of its significant bytes. A JavaScript
  string is a \<open>string\<close>, and \<open>charCodeAt\<close> is \<open>of_char\<close>.
\<close>

type_synonym WordArray = "8 word list"

definition ENVELOPE_VERSION :: string where
  "ENVELOPE_VERSION = ''1.1.0''"

definition MASTER_KEY_BYTES :: nat where
  "MASTER_KEY_BYTES = 64"

definition PBKDF2_ITERATIONS :: int where
  "PBKDF2_ITERATIONS = 150000"

definition SALT_BYTES :: nat where
  "SALT_BYTES = 16"

definition IV_BYTES :: nat where
  "IV_BYTES = 16"

text \<open>
  The object that \<open>JSON.parse\<close> returns, read through the interface \<open>EncryptionEnvelope\<close>.
  The two numeric fields and \<open>salt\<close> may be missing or \<open>null\<close> (the source guards them
  with \<open>??\<close> and \<open>!\<close>); the other fields are strings.
\<close>

record EncryptionEnvelope =
  version :: string
  mode :: string
  ciphertext :: string
  iv :: string
  salt :: "string option"
  hmac :: string
  iterations :: "int option"
  envelope_createdAt :: "int option"

record EncryptResult =
  payload :: string
  shareKey :: "string option"
  requiresPassword :: bool
  integrity :: string

record DecryptOptions =
  key :: "string option"
  password :: "string option"

text \<open>
  The functions of CryptoJS and of the JSON built-in that the codec calls. Their code is
  not part of this repository, so they are a parameter of every codec function:
  \<^item> \<open>PBKDF2 password salt keySize iterations\<close>;
  \<^item> \<open>Utf8_parse\<close>: \<open>CryptoJS.enc.Utf8.parse\<close>, the conversion that CryptoJS applies to a
    string argument; \<open>None\<close> when it throws \<open>URIError\<close>, which it does for a string with a
    lone surrogate;
  \<^item> \<open>AES_encrypt plaintext key iv\<close>: the \<open>ciphertext\<close> of
    \<open>CryptoJS.AES.encrypt(message, key, {iv, CBC, Pkcs7})\<close>, where \<open>plaintext\<close> is the
    converted message;
  \<^item> \<open>AES_decrypt ciphertext key iv\<close>: the bytes that \<open>CryptoJS.AES.decrypt\<close> returns;
  \<^item> \<open>AES_decrypt_passphrase payload passphrase\<close>: \<open>CryptoJS.AES.decrypt\<close> with a string key;
  \<^item> \<open>Utf8_stringify\<close>: \<open>toString(CryptoJS.enc.Utf8)\<close>, \<open>None\<close> when it throws on
    malformed UTF-8;
  \<^item> \<open>JSON_parse\<close>: \<open>None\<close> when \<open>JSON.parse\<close> throws or the value is not an object.
\<close>

record primitives =
  PBKDF2 :: "string \<Rightarrow> WordArray \<Rightarrow> nat \<Rightarrow> int \<Rightarrow> WordArray"
  Utf8_parse :: "string \<Rightarrow> WordArray option"
  AES_encrypt :: "WordArray \<Rightarrow> WordArray \<Rightarrow> WordArray \<Rightarrow> WordArray"
  AES_decrypt :: "WordArray \<Rightarrow> WordArray \<Rightarrow> WordArray \<Rightarrow> WordArray"
  AES_decrypt_passphrase :: "string \<Rightarrow> string \<Rightarrow> WordArray"
  HmacSHA256 :: "string \<Rightarrow> WordArray \<Rightarrow> WordArray"
  Base64_stringify :: "WordArray \<Rightarrow> string"
  Base64_parse :: "string \<Rightarrow> WordArray"
  Utf8_stringify :: "WordArray \<Rightarrow> string option"
  JSON_stringify :: "EncryptionEnvelope \<Rightarrow> string"
  JSON_parse :: "string \<Rightarrow> EncryptionEnvelope option"

text \<open>The three results of \<open>WordArray.random\<close> that one call of \<open>encryptMessage\<close> may draw.\<close>

record randomness =
  random_iv :: WordArray
  random_salt :: WordArray
  random_masterKey :: WordArray

subsection \<open>Hexadecimal encoding and the key split\<close>

definition hex_digits :: string where
  "hex_digits = ''0123456789abcdef''"

definition Hex_stringify :: "WordArray \<Rightarrow> string" where
  "Hex_stringify bytes =
     concat (map (\<lambda>b. [hex_digits ! (unat b div 16), hex_digits ! (unat b mod 16)]) bytes)"

definition hex_value :: "char \<Rightarrow> nat" where
  "hex_value c =
     (let n = of_char c :: nat
      in if 48 \<le> n \<and> n \<le> 57 then n - 48
         else if 97 \<le> n \<and> n \<le> 102 then n - 87
         else if 65 \<le> n \<and> n \<le> 70 then n - 55
         else 0)"

text \<open>
  \<open>Hex.parse\<close> reads two digits per byte. It is only applied to slices of
  \<open>Hex_stringify\<close> cut at even offsets; a trailing odd digit is dropped here.
\<close>

fun Hex_parse :: "string \<Rightarrow> WordArray" where
  "Hex_parse (a # b # rest) = of_nat (hex_value a * 16 + hex_value b) # Hex_parse rest"
| "Hex_parse _ = []"

text \<open>\<open>String.prototype.slice\<close> for indices \<open>0 \<le> start \<le> end\<close>.\<close>

definition slice :: "nat \<Rightarrow> nat \<Rightarrow> string \<Rightarrow> string" where
  "slice start end' s = take (end' - start) (drop start s)"

definition splitMasterKey :: "WordArray \<Rightarrow> WordArray \<times> WordArray" where
  "splitMasterKey masterKey =
     (let hex = Hex_stringify masterKey;
          aesHex = slice 0 64 hex;
          hmacHex = slice 64 128 hex
      in (Hex_parse aesHex, Hex_parse hmacHex))"

definition splitDerivedKey :: "WordArray \<Rightarrow> WordArray \<times> WordArray" where
  "splitDerivedKey derived =
     (let hex = Hex_stringify derived;
          aesHex = slice 0 64 hex;
          hmacHex = slice 64 128 hex
      in (Hex_parse aesHex, Hex_parse hmacHex))"

definition deriveKeyFromPassword :: "primitives \<Rightarrow> string \<Rightarrow> WordArray \<Rightarrow> int \<Rightarrow> WordArray \<times> WordArray" where
  "deriveKeyFromPassword C pw saltWord iters =
     (let derived = PBKDF2 C pw saltWord (MASTER_KEY_BYTES div 4) iters
      in splitDerivedKey derived)"

subsection \<open>The integrity tag\<close>

text \<open>\<open>String(n)\<close> for an integer: its decimal digits, with a minus sign below zero.\<close>

fun digits :: "nat \<Rightarrow> string" where
  "digits n = (if n < 10 then [char_of (48 + n)] else digits (n div 10) @ [char_of (48 + n mod 10)])"

declare digits.simps [simp del]

definition String :: "int \<Rightarrow> string" where
  "String n = (if n < 0 then CHR ''-'' # digits (nat (- n)) else digits (nat n))"

text \<open>\<open>Array.prototype.join\<close>.\<close>

fun join :: "string \<Rightarrow> string list \<Rightarrow> string" where
  "join sep [] = []"
| "join sep [x] = x"
| "join sep (x # y # ys) = x @ sep @ join sep (y # ys)"

text \<open>
  The array that \<open>computeIntegrity\<close> joins. The five arguments are the fields of
  \<open>HmacPayload\<close>.
\<close>

definition segments :: "string \<Rightarrow> string \<Rightarrow> string \<Rightarrow> string option \<Rightarrow> int option \<Rightarrow> string list" where
  "segments md ct ivs slt created =
     [md, ct, ivs,
      (case slt of None \<Rightarrow> [] | Some s \<Rightarrow> s),
      String (case created of None \<Rightarrow> 0 | Some n \<Rightarrow> n),
      ENVELOPE_VERSION]"

definition computeIntegrity ::
  "primitives \<Rightarrow> string \<Rightarrow> string \<Rightarrow> string \<Rightarrow> string option \<Rightarrow> int option \<Rightarrow> WordArray \<Rightarrow> string" where
  "computeIntegrity C md ct ivs slt created k =
     Base64_stringify C (HmacSHA256 C (join ''|'' (segments md ct ivs slt created)) k)"

text \<open>
  The loop of \<open>timingSafeEqual\<close>, from \<open>index\<close> on, with the accumulator \<open>result\<close>.
  The codes are below \<open>2^16\<close>, so the 32-bit operators of JavaScript do not truncate.
\<close>

function timingSafeEqual_loop :: "string \<Rightarrow> string \<Rightarrow> nat \<Rightarrow> nat \<Rightarrow> nat" where
  "timingSafeEqual_loop a b index result =
     (if index < length a then
        timingSafeEqual_loop a b (index + 1)
          (result OR (of_char (a ! index) XOR of_char (b ! index)))
      else result)"
  by pat_completeness auto
termination
  by (relation "measure (\<lambda>(a, b, index, result). length a - index)") auto

declare timingSafeEqual_loop.simps [simp del]

definition timingSafeEqual :: "string \<Rightarrow> string \<Rightarrow> bool" where
  "timingSafeEqual a b =
     (if length a \<noteq> length b then False
      else timingSafeEqual_loop a b 0 0 = 0)"

subsection \<open>Parsing, encryption, decryption\<close>

definition tryParseEnvelope :: "primitives \<Rightarrow> string \<Rightarrow> EncryptionEnvelope option" where
  "tryParseEnvelope C p =
     (case JSON_parse C p of
        None \<Rightarrow> None
      | Some parsed \<Rightarrow>
          if version parsed \<noteq> ENVELOPE_VERSION then None
          else if mode parsed \<noteq> ''link'' \<and> mode parsed \<noteq> ''password'' then None
          else Some parsed)"

text \<open>
  JavaScript's \<open>!x\<close> for an optional string: true for \<open>undefined\<close>, \<open>null\<close> and the empty
  string.
\<close>

fun falsy :: "string option \<Rightarrow> bool" where
  "falsy None = True"
| "falsy (Some s) = (s = [])"

text \<open>
  The errors the codec throws: one constructor for each \<open>throw\<close> of the source, one for
  the exception of \<open>toString(CryptoJS.enc.Utf8)\<close> and one for the \<open>URIError\<close> of
  \<open>CryptoJS.enc.Utf8.parse\<close>. \<open>error_message\<close> gives the text of the thrown \<open>Error\<close>.
\<close>

datatype error =
    LegacyKeyRequired
  | LegacyDecryptFailed
  | PasswordRequired
  | SaltMissing
  | MissingKey
  | IntegrityFailed
  | DecryptFailed
  | MalformedUtf8
  | URIError

fun error_message :: "error \<Rightarrow> string" where
  "error_message LegacyKeyRequired = ''Legacy note requires a key from the link.''"
| "error_message LegacyDecryptFailed = ''Unable to decrypt legacy payload with provided key.''"
| "error_message PasswordRequired = ''This note is protected by a password.''"
| "error_message SaltMissing = ''Encrypted payload is missing salt information.''"
| "error_message MissingKey = ''Missing secret key in link.''"
| "error_message IntegrityFailed = ''Message integrity check failed. The payload may have been altered.''"
| "error_message DecryptFailed = ''Unable to decrypt with the supplied credentials.''"
| "error_message MalformedUtf8 = ''Malformed UTF-8 data''"
| "error_message URIError = ''URI malformed''"

text \<open>
  \<open>encryptMessage\<close>. The random values and the clock are arguments; \<open>pw\<close> is
  \<open>options.password\<close>. The function has no \<open>throw\<close> of its own, but two of its calls
  convert a string with \<open>Utf8.parse\<close> and let its \<open>URIError\<close> through: \<open>CryptoJS.PBKDF2\<close>
  (inside \<open>deriveKeyFromPassword\<close>) converts the password, and \<open>CryptoJS.AES.encrypt\<close>
  converts the message. The result is \<open>Inl URIError\<close> then.
\<close>

definition encryptMessage ::
  "primitives \<Rightarrow> randomness \<Rightarrow> int \<Rightarrow> string \<Rightarrow> string option \<Rightarrow> error + EncryptResult" where
  "encryptMessage C rnd now message pw =
     (let ivWord = random_iv rnd;
          ivBase64 = Base64_stringify C ivWord;
          created = now
      in if \<not> falsy pw then
           let saltWord = random_salt rnd
           in case Utf8_parse C (the pw) of
                None \<Rightarrow> Inl URIError
              | Some passwordBytes \<Rightarrow>
                  let (aesKey, hmacKey) = deriveKeyFromPassword C (the pw) saltWord PBKDF2_ITERATIONS
                  in case Utf8_parse C message of
                       None \<Rightarrow> Inl URIError
                     | Some plaintext \<Rightarrow>
                         let cipher = AES_encrypt C plaintext aesKey ivWord;
                             ct = Base64_stringify C cipher;
                             saltBase64 = Base64_stringify C saltWord;
                             tag = computeIntegrity C ''password'' ct ivBase64 (Some saltBase64)
                                     (Some created) hmacKey;
                             envelope = \<lparr> version = ENVELOPE_VERSION, mode = ''password'',
                                          ciphertext = ct, iv = ivBase64, salt = Some saltBase64,
                                          hmac = tag, iterations = Some PBKDF2_ITERATIONS,
                                          envelope_createdAt = Some created \<rparr>
                         in Inr \<lparr> payload = JSON_stringify C envelope, shareKey = None,
                                  requiresPassword = True, integrity = tag \<rparr>
         else
           let masterKey = random_masterKey rnd;
               (aesKey, hmacKey) = splitMasterKey masterKey
           in case Utf8_parse C message of
                None \<Rightarrow> Inl URIError
              | Some plaintext \<Rightarrow>
                  let cipher = AES_encrypt C plaintext aesKey ivWord;
                      ct = Base64_stringify C cipher;
                      tag = computeIntegrity C ''link'' ct ivBase64 None (Some created) hmacKey;
                      envelope = \<lparr> version = ENVELOPE_VERSION, mode = ''link'', ciphertext = ct,
                                   iv = ivBase64, salt = None, hmac = tag,
                                   iterations = Some PBKDF2_ITERATIONS,
                                   envelope_createdAt = Some created \<rparr>
                  in Inr \<lparr> payload = JSON_stringify C envelope,
                           shareKey = Some (Base64_stringify C masterKey),
                           requiresPassword = False, integrity = tag \<rparr>)"

text \<open>
  The calls of the key derivation, of the MAC and of the cipher are recorded, in the
  order in which \<open>decryptMessage\<close> makes them.
\<close>

datatype event =
    Derive string WordArray int
  | Mac string WordArray
  | Decrypt WordArray WordArray WordArray
  | DecryptLegacy string string

text \<open>
  \<open>decryptMessage\<close> is modelled in three parts, in the order of the source: the keys
  are resolved from the credential (lines 157 to 182); the tag is recomputed and compared,
  and the ciphertext decrypted (lines 184 to 213); \<open>decryptMessage\<close> itself parses the
  payload, handles a payload that is not a versioned envelope, and runs the two parts.
\<close>

definition resolveKeys ::
  "primitives \<Rightarrow> EncryptionEnvelope \<Rightarrow> DecryptOptions \<Rightarrow> event list \<times> (error + WordArray \<times> WordArray)" where
  "resolveKeys C envelope options =
     (if mode envelope = ''password'' then
        if falsy (password options) then ([], Inl PasswordRequired)
        else if falsy (salt envelope) then ([], Inl SaltMissing)
        else
          let saltWord = Base64_parse C (the (salt envelope));
              iters = (case iterations envelope of None \<Rightarrow> PBKDF2_ITERATIONS | Some n \<Rightarrow> n)
          in ([Derive (the (password options)) saltWord iters],
              Inr (deriveKeyFromPassword C (the (password options)) saltWord iters))
      else
        if falsy (key options) then ([], Inl MissingKey)
        else
          let masterKey = Base64_parse C (the (key options))
          in ([], Inr (splitMasterKey masterKey)))"

text \<open>The string that is authenticated for an envelope.\<close>

definition mac_input :: "EncryptionEnvelope \<Rightarrow> string" where
  "mac_input envelope =
     join ''|'' (segments (mode envelope) (ciphertext envelope) (iv envelope) (salt envelope)
                  (envelope_createdAt envelope))"

definition checkAndDecrypt ::
  "primitives \<Rightarrow> EncryptionEnvelope \<Rightarrow> WordArray \<Rightarrow> WordArray \<Rightarrow> event list \<times> (error + string)" where
  "checkAndDecrypt C envelope aesKey hmacKey =
     (let ivWord = Base64_parse C (iv envelope);
          expectedIntegrity = computeIntegrity C (mode envelope) (ciphertext envelope) (iv envelope)
                                (salt envelope) (envelope_createdAt envelope) hmacKey;
          mac = Mac (mac_input envelope) hmacKey
      in if \<not> timingSafeEqual expectedIntegrity (hmac envelope) then
           ([mac], Inl IntegrityFailed)
         else
           let ct = Base64_parse C (ciphertext envelope);
               dec = Decrypt ct aesKey ivWord
           in case Utf8_stringify C (AES_decrypt C ct aesKey ivWord) of
                None \<Rightarrow> ([mac, dec], Inl MalformedUtf8)
              | Some decrypted \<Rightarrow>
                  if decrypted = [] then ([mac, dec], Inl DecryptFailed)
                  else ([mac, dec], Inr decrypted))"

definition decryptMessage :: "primitives \<Rightarrow> string \<Rightarrow> DecryptOptions \<Rightarrow> event list \<times> (error + string)" where
  "decryptMessage C p options =
     (case tryParseEnvelope C p of
        None \<Rightarrow>
          if falsy (key options) then ([], Inl LegacyKeyRequired)
          else
            (case Utf8_stringify C (AES_decrypt_passphrase C p (the (key options))) of
               None \<Rightarrow> ([DecryptLegacy p (the (key options))], Inl MalformedUtf8)
             | Some decrypted \<Rightarrow>
                 if decrypted = [] then
                   ([DecryptLegacy p (the (key options))], Inl LegacyDecryptFailed)
                 else ([DecryptLegacy p (the (key options))], Inr decrypted))
      | Some envelope \<Rightarrow>
          (case resolveKeys C envelope options of
             (trace, Inl err) \<Rightarrow> (trace, Inl err)
           | (trace, Inr (aesKey, hmacKey)) \<Rightarrow>
               let (trace', result) = checkAndDecrypt C envelope aesKey hmacKey
               in (trace @ trace', result)))"

definition inspectEncryptedPayload :: "primitives \<Rightarrow> string \<Rightarrow> string \<times> string \<times> int option" where
  "inspectEncryptedPayload C p =
     (case tryParseEnvelope C p of
        None \<Rightarrow> (''link'', ''legacy'', Some 0)
      | Some envelope \<Rightarrow> (mode envelope, version envelope, envelope_createdAt envelope))"

text \<open>
  The value of \<open>expectedIntegrity\<close> in \<open>decryptMessage\<close>: the tag recomputed for an
  envelope under the keys resolved from the options, \<open>None\<close> when no keys are resolved.
\<close>

definition expectedIntegrity :: "primitives \<Rightarrow> EncryptionEnvelope \<Rightarrow> DecryptOptions \<Rightarrow> string option" where
  "expectedIntegrity C envelope options =
     (case snd (resolveKeys C envelope options) of
        Inl err \<Rightarrow> None
      | Inr (aesKey, hmacKey) \<Rightarrow>
          Some (computeIntegrity C (mode envelope) (ciphertext envelope) (iv envelope)
                  (salt envelope) (envelope_createdAt envelope) hmacKey))"

subsection \<open>Altered envelopes\<close>

text \<open>Two strings of one length that differ at exactly one position.\<close>

definition one_byte_changed :: "string \<Rightarrow> string \<Rightarrow> bool" where
  "one_byte_changed s s' =
     (length s' = length s \<and> length (filter (\<lambda>(a, b). a \<noteq> b) (zip s s')) = 1)"

text \<open>
  \<open>altered e e'\<close>: the envelope \<open>e'\<close> is \<open>e\<close> with one byte of its ciphertext, of its
  iv, of its salt or of its tag changed.
\<close>

definition altered :: "EncryptionEnvelope \<Rightarrow> EncryptionEnvelope \<Rightarrow> bool" where
  "altered e e' =
     ((e' = e\<lparr>ciphertext := ciphertext e'\<rparr> \<and> one_byte_changed (ciphertext e) (ciphertext e'))
    \<or> (e' = e\<lparr>iv := iv e'\<rparr> \<and> one_byte_changed (iv e) (iv e'))
    \<or> (e' = e\<lparr>salt := salt e'\<rparr> \<and>
         (case (salt e, salt e') of
            (Some s, Some s') \<Rightarrow> one_byte_changed s s'
          | _ \<Rightarrow> False))
    \<or> (e' = e\<lparr>hmac := hmac e'\<rparr> \<and> one_byte_changed (hmac e) (hmac e')))"

text \<open>The \<open>Decrypt\<close> and \<open>Derive\<close> events of a trace.\<close>

fun is_Decrypt :: "event \<Rightarrow> bool" where
  "is_Decrypt (Decrypt c k v) = True"
| "is_Decrypt (DecryptLegacy p k) = True"
| "is_Decrypt _ = False"

fun is_Derive :: "event \<Rightarrow> bool" where
  "is_Derive (Derive p s n) = True"
| "is_Derive _ = False"

subsection \<open>Assumptions on the library, and an instance that meets them\<close>

text \<open>
  What the round trip relies on from CryptoJS and JSON:
  \<^item> Base64 decoding inverts encoding, and the empty byte sequence encodes to the empty
    string;
  \<^item> \<open>JSON.parse\<close> inverts \<open>JSON.stringify\<close> on envelopes;
  \<^item> AES-256 in CBC mode: under one key of 32 bytes and one iv of 16 bytes (the sizes the
    codec uses) decryption inverts encryption;
  \<^item> \<open>toString(Utf8)\<close> inverts \<open>Utf8.parse\<close> on the strings that \<open>Utf8.parse\<close> accepts;
  \<^item> \<open>PBKDF2\<close> with \<open>keySize = MASTER_KEY_BYTES / 4\<close> words returns \<open>MASTER_KEY_BYTES\<close>
    bytes, for a password that \<open>Utf8.parse\<close> accepts.
\<close>

definition library_laws :: "primitives \<Rightarrow> bool" where
  "library_laws C =
     ((\<forall>w. Base64_parse C (Base64_stringify C w) = w)
    \<and> Base64_stringify C [] = []
    \<and> (\<forall>e. JSON_parse C (JSON_stringify C e) = Some e)
    \<and> (\<forall>w k v. length k = 32 \<longrightarrow> length v = 16 \<longrightarrow>
           AES_decrypt C (AES_encrypt C w k v) k v = w)
    \<and> (\<forall>m w. Utf8_parse C m = Some w \<longrightarrow> Utf8_stringify C w = Some m)
    \<and> (\<forall>pw s n. Utf8_parse C pw \<noteq> None \<longrightarrow>
           length (PBKDF2 C pw s (MASTER_KEY_BYTES div 4) n) = MASTER_KEY_BYTES))"

definition bytes_of_string :: "string \<Rightarrow> WordArray" where
  "bytes_of_string s = map (\<lambda>c. of_nat (of_char c)) s"

definition string_of_bytes :: "WordArray \<Rightarrow> string" where
  "string_of_bytes w = map (\<lambda>b. char_of (unat b)) w"

text \<open>
  A serialisation of envelopes that can be read back: every string is preceded by its
  length in unary, an integer is a sign and a magnitude in unary.
\<close>

definition put_string :: "string \<Rightarrow> string" where
  "put_string s = replicate (length s) CHR ''#'' @ CHR '':'' # s"

definition get_string :: "string \<Rightarrow> string \<times> string" where
  "get_string x =
     (let n = length (takeWhile (\<lambda>c. c = CHR ''#'') x);
          r = drop (Suc n) x
      in (take n r, drop n r))"

definition put_int :: "int \<Rightarrow> string" where
  "put_int i = put_string (if i < 0 then ''-'' else ''+'') @ put_string (replicate (nat \<bar>i\<bar>) CHR ''1'')"

definition get_int :: "string \<Rightarrow> int \<times> string" where
  "get_int x =
     (let (sg, r) = get_string x;
          (u, r') = get_string r
      in (if sg = ''-'' then - int (length u) else int (length u), r'))"

fun put_option :: "('a \<Rightarrow> string) \<Rightarrow> 'a option \<Rightarrow> string" where
  "put_option f None = ''N''"
| "put_option f (Some v) = CHR ''S'' # f v"

fun get_option :: "(string \<Rightarrow> 'a \<times> string) \<Rightarrow> string \<Rightarrow> 'a option \<times> string" where
  "get_option g [] = (None, [])"
| "get_option g (c # r) =
     (if c = CHR ''S'' then (let (v, r') = g r in (Some v, r')) else (None, r))"

definition toy_stringify :: "EncryptionEnvelope \<Rightarrow> string" where
  "toy_stringify e =
     put_string (version e) @ put_string (mode e) @ put_string (ciphertext e) @
     put_string (iv e) @ put_option put_string (salt e) @ put_string (hmac e) @
     put_option put_int (iterations e) @ put_option put_int (envelope_createdAt e)"

definition toy_parse :: "string \<Rightarrow> EncryptionEnvelope option" where
  "toy_parse x =
     (let (v, r1) = get_string x;
          (m, r2) = get_string r1;
          (c, r3) = get_string r2;
          (i, r4) = get_string r3;
          (s, r5) = get_option get_string r4;
          (h, r6) = get_string r5;
          (n, r7) = get_option get_int r6;
          (t, r8) = get_option get_int r7
      in Some \<lparr> version = v, mode = m, ciphertext = c, iv = i, salt = s, hmac = h,
                iterations = n, envelope_createdAt = t \<rparr>)"

text \<open>
  The instance. A string holding the character \<open>0xFF\<close> stands for one that \<open>Utf8.parse\<close>
  rejects. The cipher copies its input, the key derivation returns 32 zero bytes followed
  by the password, cut or padded with zeros to 32 bytes, and the MAC returns its input
  followed by the key.
\<close>

definition toy :: primitives where
  "toy = \<lparr> PBKDF2 = (\<lambda>pw s keySize n. replicate 32 0 @ take 32 (bytes_of_string pw @ replicate 32 0)),
           Utf8_parse = (\<lambda>m. if CHR 0xFF \<in> set m then None else Some (bytes_of_string m)),
           AES_encrypt = (\<lambda>w k v. w),
           AES_decrypt = (\<lambda>c k v. c),
           AES_decrypt_passphrase = (\<lambda>p k. bytes_of_string p),
           HmacSHA256 = (\<lambda>m k. bytes_of_string m @ k),
           Base64_stringify = string_of_bytes,
           Base64_parse = bytes_of_string,
           Utf8_stringify = (\<lambda>w. Some (string_of_bytes w)),
           JSON_stringify = toy_stringify,
           JSON_parse = toy_parse \<rparr>"

text \<open>Sample values: the random draws of one encryption and two sealed envelopes.\<close>

definition sample_randomness :: randomness where
  "sample_randomness =
     \<lparr> random_iv = replicate 16 1, random_salt = replicate 16 2, random_masterKey = replicate 64 3 \<rparr>"

definition link_envelope :: EncryptionEnvelope where
  "link_envelope =
     \<lparr> version = ''1.1.0'', mode = ''link'', ciphertext = ''hi'', iv = ''v'', salt = None,
       hmac = ''link|hi|v||0|1.1.0'', iterations = Some 150000, envelope_createdAt = Some 0 \<rparr>"

definition password_envelope :: EncryptionEnvelope where
  "password_envelope =
     \<lparr> version = ''1.1.0'', mode = ''password'', ciphertext = ''hi'', iv = ''v'', salt = Some ''s'',
       hmac = ''password|hi|v|s|0|1.1.0'' @ string_of_bytes (take 32 (bytes_of_string ''right'' @ replicate 32 0)),
       iterations = Some 1, envelope_createdAt = Some 0 \<rparr>"

section \<open>Properties of the note store\<close>

lemma post_message_accepted:
  assumes "6 \<le> length (payload_id req)" "length (payload_id req) \<le> 36"
    and "payload_encrypted req \<noteq> []" "length (payload_encrypted req) \<le> 20000"
    and "expiresInMinutes req = Some m" "0 < m"
  shows "post_message cfg now req store =
     (Reply 201 (Created (of_int now + min m (of_int (MAX_MINUTES cfg)) * 60 * 1000)
        (if payload_burnAfterRead req then None
         else Some (resolve_views cfg (payload_burnAfterRead req) (maxViews req)))),
      store(payload_id req \<mapsto>
        \<lparr> encrypted = payload_encrypted req,
          expiresAt = of_int now + min m (of_int (MAX_MINUTES cfg)) * 60 * 1000,
          burnAfterRead = payload_burnAfterRead req,
          remainingViews = resolve_views cfg (payload_burnAfterRead req) (maxViews req),
          createdAt = now \<rparr>))"
  using assms by (simp add: post_message_def Let_def)

lemma get_message_vault:
  assumes "store mid = Some e" "of_int now < expiresAt e" "0 < remainingViews e" "\<not> burnAfterRead e"
  shows "get_message now mid store =
           (Reply 200 (Served (encrypted e) (expiresAt e) (remainingViews e - 1)),
            if remainingViews e = 1 then store(mid := None)
            else store(mid \<mapsto> e\<lparr> remainingViews := remainingViews e - 1 \<rparr>))"
  using assms by (auto simp: get_message_def Let_def max_def)

lemma get_message_burn:
  assumes "store mid = Some e" "of_int now < expiresAt e" "0 < remainingViews e" "burnAfterRead e"
  shows "get_message now mid store =
           (Reply 200 (Served (encrypted e) (expiresAt e) 0), store(mid := None))"
  using assms by (auto simp: get_message_def)

lemma get_message_absent:
  "store mid = None \<Longrightarrow> get_message now mid store =
     (Reply 404 (Message ''Message not found or already burned''), store)"
  by (simp add: get_message_def)

lemma serve_absent: "store mid = None \<Longrightarrow> serve q store mid = None"
  by (cases q) (auto simp: get_message_def delete_message_def sweep_def Let_def split: option.splits)

lemma serve_all_absent: "store mid = None \<Longrightarrow> serve_all qs store mid = None"
  by (induction qs arbitrary: store) (auto simp: serve_absent)

lemma reads_absent:
  "store mid = None \<Longrightarrow>
   reads ts mid store =
     (replicate (length ts) (Reply 404 (Message ''Message not found or already burned'')), store)"
  by (induction ts) (simp_all add: get_message_absent)

text \<open>
  Reads served one after the other: a burn-after-read entry is served once, and a vault
  entry with \<open>n\<close> views left is served \<open>n\<close> times, with the counts \<open>n - 1\<close> down to 0;
  every later read is answered with 404.
\<close>

lemma reads_burn:
  assumes "store mid = Some e" "of_int t < expiresAt e" "0 < remainingViews e" "burnAfterRead e"
  shows "reads (t # ts) mid store =
     (Reply 200 (Served (encrypted e) (expiresAt e) 0)
        # replicate (length ts) (Reply 404 (Message ''Message not found or already burned'')),
      store(mid := None))"
  using assms by (simp add: get_message_burn reads_absent)

lemma reads_vault:
  assumes "store mid = Some e" "\<not> burnAfterRead e" "remainingViews e = int (length ts)"
    and "ts \<noteq> []" "\<forall>t \<in> set ts. of_int t < expiresAt e"
  shows "reads (ts @ later) mid store =
     (map (\<lambda>k. Reply 200 (Served (encrypted e) (expiresAt e) (int k))) (rev [0..<length ts])
        @ replicate (length later) (Reply 404 (Message ''Message not found or already burned'')),
      store(mid := None))"
  using assms
proof (induction ts arbitrary: store e)
  case Nil
  then show ?case by simp
next
  case (Cons t ts)
  show ?case
  proof (cases "ts = []")
    case True
    then show ?thesis
      using Cons.prems by (auto simp: get_message_vault reads_absent)
  next
    case False
    define e' where "e' = e\<lparr> remainingViews := remainingViews e - 1 \<rparr>"
    define store' where "store' = store(mid \<mapsto> e')"
    have step: "get_message t mid store =
        (Reply 200 (Served (encrypted e) (expiresAt e) (int (length ts))), store')"
      using Cons.prems False by (simp add: get_message_vault store'_def e'_def)
    have a: "store' mid = Some e'" by (simp add: store'_def)
    have b: "\<not> burnAfterRead e'" using Cons.prems(2) by (simp add: e'_def)
    have c: "remainingViews e' = int (length ts)" using Cons.prems(3) by (simp add: e'_def)
    have d: "\<forall>t \<in> set ts. of_int t < expiresAt e'" using Cons.prems(5) by (simp add: e'_def)
    have same: "store'(mid := None) = store(mid := None)" by (simp add: store'_def)
    have fields: "encrypted e' = encrypted e" "expiresAt e' = expiresAt e"
      by (simp_all add: e'_def)
    have rest: "reads (ts @ later) mid store' =
        (map (\<lambda>k. Reply 200 (Served (encrypted e) (expiresAt e) (int k))) (rev [0..<length ts])
           @ replicate (length later) (Reply 404 (Message ''Message not found or already burned'')),
         store(mid := None))"
      using Cons.IH [of store' e', OF a b c False d] unfolding same fields .
    show ?thesis
      using step rest by (auto simp: fun_eq_iff)
  qed
qed

lemma resolve_views_default:
  "resolve_views default_config False (Num v) = min (max \<lfloor>v\<rfloor> 2) 10"
  "resolve_views default_config False Absent = 10"
  "resolve_views default_config False Null = 2"
  "resolve_views cfg True mv = 1"
  by (simp_all add: resolve_views_def default_config_def)

text \<open>
  C4. A request that passes validation, with \<open>burnAfterRead = false\<close> and \<open>maxViews = 5\<close>,
  under a configuration whose \<open>DEFAULT_VIEWS\<close> and \<open>MAX_VIEWS\<close> are at least 5 (the
  defaults are 10 and 50), creates an entry with five views. Five reads before the expiry
  succeed with \<open>remainingViews\<close> 4, 3, 2, 1 and 0; the fifth deletes the entry; a sixth
  read, at any time, is answered with 404.
\<close>

theorem vault_of_five_reads:
  assumes "6 \<le> length (payload_id req)" "length (payload_id req) \<le> 36"
    and "payload_encrypted req \<noteq> []" "length (payload_encrypted req) \<le> 20000"
    and "expiresInMinutes req = Some m" "0 < m"
    and "\<not> payload_burnAfterRead req" "maxViews req = Num 5"
    and "5 \<le> DEFAULT_VIEWS cfg" "5 \<le> MAX_VIEWS cfg"
    and "deadline = of_int now + min m (of_int (MAX_MINUTES cfg)) * 60 * 1000"
    and "of_int t1 < deadline" "of_int t2 < deadline" "of_int t3 < deadline"
        "of_int t4 < deadline" "of_int t5 < deadline"
  shows "fst (post_message cfg now req store) = Reply 201 (Created deadline (Some 5))
       \<and> reads [t1, t2, t3, t4, t5, t6] (payload_id req) (snd (post_message cfg now req store)) =
           ([Reply 200 (Served (payload_encrypted req) deadline 4),
             Reply 200 (Served (payload_encrypted req) deadline 3),
             Reply 200 (Served (payload_encrypted req) deadline 2),
             Reply 200 (Served (payload_encrypted req) deadline 1),
             Reply 200 (Served (payload_encrypted req) deadline 0),
             Reply 404 (Message ''Message not found or already burned'')],
            (snd (post_message cfg now req store))(payload_id req := None))
       \<and> snd (reads [t1, t2, t3, t4, t5] (payload_id req) (snd (post_message cfg now req store)))
            (payload_id req) = None"
proof -
  have views: "resolve_views cfg (payload_burnAfterRead req) (maxViews req) = 5"
    using assms(7-10) by (simp add: resolve_views_def)
  note post = post_message_accepted [OF assms(1-6), of cfg now store, unfolded views, folded assms(11)]
  show ?thesis
    using assms(7,12-16) unfolding post
    by (simp add: get_message_vault get_message_absent)
qed

theorem vault_of_five_reads_witness:
  "fst (post_message default_config 0
          \<lparr> payload_id = ''abcdef'', payload_encrypted = ''blob'', expiresInMinutes = Some 1,
            payload_burnAfterRead = False, maxViews = Num 5 \<rparr> Map.empty)
     = Reply 201 (Created 60000 (Some 5))
   \<and> fst (reads [1, 2, 3, 4, 5, 6] ''abcdef''
        (snd (post_message default_config 0
          \<lparr> payload_id = ''abcdef'', payload_encrypted = ''blob'', expiresInMinutes = Some 1,
            payload_burnAfterRead = False, maxViews = Num 5 \<rparr> Map.empty)))
     = [Reply 200 (Served ''blob'' 60000 4), Reply 200 (Served ''blob'' 60000 3),
        Reply 200 (Served ''blob'' 60000 2), Reply 200 (Served ''blob'' 60000 1),
        Reply 200 (Served ''blob'' 60000 0),
        Reply 404 (Message ''Message not found or already burned'')]"
  using vault_of_five_reads [of
      "\<lparr> payload_id = ''abcdef'', payload_encrypted = ''blob'', expiresInMinutes = Some 1,
         payload_burnAfterRead = False, maxViews = Num 5 \<rparr>"
      1 default_config 60000 0 1 2 3 4 5 Map.empty 6]
  by (simp add: default_config_def)

text \<open>
  C5. The POST handler takes the minimum of three numbers: the floored \<open>maxViews\<close> raised
  to 2, \<open>max DEFAULT_VIEWS 2\<close>, and \<open>MAX_VIEWS\<close>. Under the default configuration a
  non-burn request with \<open>maxViews = 1000\<close> is therefore given 10 views, not the 50 of
  \<open>MAX_VIEWS\<close>; \<open>maxViews = 1\<close> is raised to 2.
\<close>

theorem post_message_caps_views_at_default:
  "fst (post_message default_config now
          \<lparr> payload_id = ''abcdef'', payload_encrypted = ''blob'', expiresInMinutes = Some 1,
            payload_burnAfterRead = False, maxViews = Num 1000 \<rparr> store)
     = Reply 201 (Created (of_int now + 60000) (Some 10))
   \<and> resolve_views default_config False (Num 1000) = 10
   \<and> resolve_views default_config False (Num 1) = 2"
  by (simp add: post_message_def resolve_views_def default_config_def Let_def)

text \<open>
  C6. A read of an entry whose \<open>expiresAt\<close> has passed deletes the entry and is answered
  with 410. After that, whatever reads, deletes and sweeps are served in between (for any
  ids, at any times), a read of the same id is answered with 404.
\<close>

theorem expired_read_gone_then_not_found:
  assumes "store mid = Some e" and "expiresAt e \<le> of_int now"
  shows "get_message now mid store = (Reply 410 (Message ''Message expired''), store(mid := None))
       \<and> fst (get_message later mid (serve_all qs (snd (get_message now mid store))))
           = Reply 404 (Message ''Message not found or already burned'')"
proof -
  have first: "get_message now mid store = (Reply 410 (Message ''Message expired''), store(mid := None))"
    using assms by (simp add: get_message_def)
  have "serve_all qs (store(mid := None)) mid = None"
    by (rule serve_all_absent) simp
  then show ?thesis
    using first by (simp add: get_message_absent)
qed

theorem expired_read_gone_then_not_found_witness:
  "fst (get_message 61000 ''abcdef''
         [''abcdef'' \<mapsto> \<lparr> encrypted = ''blob'', expiresAt = 60000, burnAfterRead = False,
                           remainingViews = 3, createdAt = 0 \<rparr>])
     = Reply 410 (Message ''Message expired'')
   \<and> fst (get_message 62000 ''abcdef''
        (serve_all [Get 61500 ''abcdef'', Sweep 61600, Delete ''abcdef'']
          (snd (get_message 61000 ''abcdef''
            [''abcdef'' \<mapsto> \<lparr> encrypted = ''blob'', expiresAt = 60000, burnAfterRead = False,
                              remainingViews = 3, createdAt = 0 \<rparr>]))))
     = Reply 404 (Message ''Message not found or already burned'')"
  using expired_read_gone_then_not_found [of
      "[''abcdef'' \<mapsto> \<lparr> encrypted = ''blob'', expiresAt = 60000, burnAfterRead = False,
                        remainingViews = 3, createdAt = 0 \<rparr>]"
      "''abcdef''"
      "\<lparr> encrypted = ''blob'', expiresAt = 60000, burnAfterRead = False,
         remainingViews = 3, createdAt = 0 \<rparr>"
      61000 62000 "[Get 61500 ''abcdef'', Sweep 61600, Delete ''abcdef'']"]
  by (simp add: get_message_def delete_message_def sweep_def)

text \<open>
  C7, as the handler behaves. The DELETE handler leaves the store without an entry for the
  id, whether or not there was one, and serving it again changes nothing. Its reply is 204
  when the entry existed and 404 when it did not. \<open>deleteRemote\<close>, the client's wrapper,
  accepts both replies and reports success in either case.
\<close>

theorem delete_message_idempotent:
  "snd (delete_message mid store) = store(mid := None)
   \<and> status (fst (delete_message mid store)) = (if store mid = None then 404 else 204)
   \<and> delete_message mid (snd (delete_message mid store))
       = (Reply 404 (Message ''Message already gone''), snd (delete_message mid store))
   \<and> deleteRemote mid store = (Inr (), store(mid := None))"
  by (auto simp: delete_message_def deleteRemote_def response_ok_def)

text \<open>
  C7, as stated, fails for an id that is not in the store: the reply is 404, which is not
  a success status.
\<close>

theorem delete_unknown_id_replies_404:
  "fst (delete_message ''abcdef'' Map.empty) = Reply 404 (Message ''Message already gone'')
   \<and> \<not> response_ok (fst (delete_message ''abcdef'' Map.empty))"
  by (simp add: delete_message_def response_ok_def)

text \<open>
  C8. The two backends resolve different budgets for the same request: with
  \<open>maxViews = 1000\<close> the server (default configuration) stores 10 views and the browser
  fallback stores 50.
\<close>

theorem backends_resolve_different_views:
  "fst (post_message default_config 0
          \<lparr> payload_id = ''abcdef'', payload_encrypted = ''blob'', expiresInMinutes = Some 1,
            payload_burnAfterRead = False, maxViews = Num 1000 \<rparr> Map.empty)
     = Reply 201 (Created 60000 (Some 10))
   \<and> fst (persistLocal 0
          \<lparr> payload_id = ''abcdef'', payload_encrypted = ''blob'', expiresInMinutes = Some 1,
            payload_burnAfterRead = False, maxViews = Num 1000 \<rparr> Map.empty)
     = PersistResponse 60000 local (Some 50)"
  by (simp add: post_message_def resolve_views_def default_config_def persistLocal_def
      clampViews_def Let_def)

section \<open>Properties of the envelope codec\<close>

lemma xor_nat_eq_0_iff: "(x XOR y = (0::nat)) = (x = y)"
proof
  assume "x XOR y = 0"
  then have "(x XOR y) XOR y = 0 XOR y" by simp
  then show "x = y" by (simp add: xor.assoc)
next
  assume "x = y"
  then show "x XOR y = 0" by simp
qed

lemma loop_zero_iff:
  "length a = length b \<Longrightarrow>
   (timingSafeEqual_loop a b i r = 0) = (r = 0 \<and> drop i a = drop i b)"
proof (induction a b i r rule: timingSafeEqual_loop.induct)
  case (1 a b index result)
  show ?case
  proof (cases "index < length a")
    case True
    then have da: "drop index a = a ! index # drop (Suc index) a"
      and db: "drop index b = b ! index # drop (Suc index) b"
      using "1.prems" by (simp_all add: Cons_nth_drop_Suc)
    show ?thesis
      using True "1.IH" [OF True "1.prems"] da db
      by (subst timingSafeEqual_loop.simps) (auto simp: or_eq_0_iff xor_nat_eq_0_iff)
  next
    case False
    then show ?thesis
      using "1.prems" by (subst timingSafeEqual_loop.simps) simp
  qed
qed

lemma timingSafeEqual_iff: "timingSafeEqual a b = (a = b)"
  using loop_zero_iff [of a b 0 0] by (auto simp: timingSafeEqual_def)

lemma checkAndDecrypt_mismatch:
  assumes "computeIntegrity C (mode e) (ciphertext e) (iv e) (salt e) (envelope_createdAt e) hk \<noteq> hmac e"
  shows "checkAndDecrypt C e ak hk = ([Mac (mac_input e) hk], Inl IntegrityFailed)"
  using assms by (simp add: checkAndDecrypt_def Let_def timingSafeEqual_iff)

lemma checkAndDecrypt_match:
  assumes "computeIntegrity C (mode e) (ciphertext e) (iv e) (salt e) (envelope_createdAt e) hk = hmac e"
  shows "checkAndDecrypt C e ak hk =
     ([Mac (mac_input e) hk, Decrypt (Base64_parse C (ciphertext e)) ak (Base64_parse C (iv e))],
      case Utf8_stringify C (AES_decrypt C (Base64_parse C (ciphertext e)) ak (Base64_parse C (iv e))) of
        None \<Rightarrow> Inl MalformedUtf8
      | Some d \<Rightarrow> if d = [] then Inl DecryptFailed else Inr d)"
  using assms by (simp add: checkAndDecrypt_def Let_def timingSafeEqual_iff split: option.splits)

lemma checkAndDecrypt_cases:
  "(checkAndDecrypt C e ak hk = ([Mac (mac_input e) hk], Inl IntegrityFailed)
      \<and> computeIntegrity C (mode e) (ciphertext e) (iv e) (salt e) (envelope_createdAt e) hk \<noteq> hmac e)
   \<or> (snd (checkAndDecrypt C e ak hk) \<noteq> Inl IntegrityFailed
      \<and> computeIntegrity C (mode e) (ciphertext e) (iv e) (salt e) (envelope_createdAt e) hk = hmac e)"
  by (cases "computeIntegrity C (mode e) (ciphertext e) (iv e) (salt e) (envelope_createdAt e) hk = hmac e")
     (auto simp: checkAndDecrypt_match checkAndDecrypt_mismatch split: option.splits)

lemma resolveKeys_trace: "\<not> list_ex is_Decrypt (fst (resolveKeys C e opts))"
  by (simp add: resolveKeys_def Let_def)

lemma decryptMessage_versioned:
  assumes "tryParseEnvelope C p = Some e"
  shows "decryptMessage C p opts =
     (case resolveKeys C e opts of
        (tr, Inl err) \<Rightarrow> (tr, Inl err)
      | (tr, Inr (ak, hk)) \<Rightarrow>
          (tr @ fst (checkAndDecrypt C e ak hk), snd (checkAndDecrypt C e ak hk)))"
  using assms by (simp add: decryptMessage_def Let_def split: prod.splits sum.splits)

lemma resolveKeys_no_integrity_error: "snd (resolveKeys C e opts) \<noteq> Inl IntegrityFailed"
  by (simp add: resolveKeys_def Let_def)

lemma decryptMessage_resolved:
  assumes "tryParseEnvelope C p = Some e" and "resolveKeys C e opts = (tr, Inr (ak, hk))"
  shows "expectedIntegrity C e opts \<noteq> Some (hmac e) \<Longrightarrow>
           decryptMessage C p opts = (tr @ [Mac (mac_input e) hk], Inl IntegrityFailed)"
    and "expectedIntegrity C e opts = Some (hmac e) \<Longrightarrow>
           snd (decryptMessage C p opts) \<noteq> Inl IntegrityFailed"
  using assms checkAndDecrypt_cases [of C e ak hk]
  by (auto simp: decryptMessage_versioned expectedIntegrity_def)

lemma decryptMessage_unresolved:
  assumes "tryParseEnvelope C p = Some e" and "snd (resolveKeys C e opts) = Inl err"
  shows "decryptMessage C p opts = (fst (resolveKeys C e opts), Inl err)"
  using assms by (cases "resolveKeys C e opts") (simp add: decryptMessage_versioned)

lemma integrity_failure_before_decrypt:
  assumes "snd (decryptMessage C q opts) = Inl IntegrityFailed"
  shows "\<not> list_ex is_Decrypt (fst (decryptMessage C q opts))"
proof (cases "tryParseEnvelope C q")
  case None
  then show ?thesis
    using assms by (auto simp: decryptMessage_def split: option.splits if_splits)
next
  case (Some e)
  obtain tr res where rk: "resolveKeys C e opts = (tr, res)"
    by (cases "resolveKeys C e opts")
  have tr: "\<not> list_ex is_Decrypt tr"
    using resolveKeys_trace [of C e opts] rk by simp
  show ?thesis
  proof (cases res)
    case (Inl err)
    then show ?thesis
      using Some rk tr by (simp add: decryptMessage_versioned)
  next
    case (Inr keys)
    obtain ak hk where keys: "keys = (ak, hk)" by (cases keys)
    show ?thesis
      using Some rk tr Inr keys assms checkAndDecrypt_cases [of C e ak hk]
      by (auto simp: decryptMessage_versioned)
  qed
qed

lemma resolveKeys_password:
  assumes "mode e = ''password''" "q \<noteq> []" "\<not> falsy (salt e)"
  shows "resolveKeys C e \<lparr> key = k, password = Some q \<rparr> =
     ([Derive q (Base64_parse C (the (salt e)))
         (case iterations e of None \<Rightarrow> PBKDF2_ITERATIONS | Some n \<Rightarrow> n)],
      Inr (deriveKeyFromPassword C q (Base64_parse C (the (salt e)))
         (case iterations e of None \<Rightarrow> PBKDF2_ITERATIONS | Some n \<Rightarrow> n)))"
  using assms by (simp add: resolveKeys_def Let_def)

lemma expectedIntegrity_resolved:
  assumes "resolveKeys C e opts = (tr, Inr (ak, hk))"
  shows "expectedIntegrity C e opts =
           Some (computeIntegrity C (mode e) (ciphertext e) (iv e) (salt e) (envelope_createdAt e) hk)"
  using assms by (simp add: expectedIntegrity_def)

lemma decrypts_then_sealed:
  assumes "tryParseEnvelope C p = Some e" and "snd (decryptMessage C p opts) = Inr m"
  shows "\<exists>tr ak hk. resolveKeys C e opts = (tr, Inr (ak, hk))
           \<and> expectedIntegrity C e opts = Some (hmac e)"
proof -
  obtain tr res where rk: "resolveKeys C e opts = (tr, res)"
    by (cases "resolveKeys C e opts")
  show ?thesis
  proof (cases res)
    case (Inl err)
    then show ?thesis
      using assms rk by (simp add: decryptMessage_versioned)
  next
    case (Inr ks)
    obtain ak hk where ks: "ks = (ak, hk)" by (cases ks)
    have "expectedIntegrity C e opts = Some (hmac e)"
      using decryptMessage_resolved(1) [OF assms(1) rk [unfolded Inr ks]] assms(2)
      by (cases "expectedIntegrity C e opts = Some (hmac e)") auto
    then show ?thesis
      using rk Inr ks by simp
  qed
qed

lemma mac_input_eq:
  "mac_input e =
     mode e @ ''|'' @ ciphertext e @ ''|'' @ iv e @ ''|'' @
     (case salt e of None \<Rightarrow> [] | Some s \<Rightarrow> s) @ ''|'' @
     String (case envelope_createdAt e of None \<Rightarrow> 0 | Some n \<Rightarrow> n) @ ''|'' @ ENVELOPE_VERSION"
  by (simp add: mac_input_def segments_def)

subsection \<open>The key split\<close>

lemma unat_byte_less: "unat (a :: 8 word) < 256"
  using unsigned_less [of a, where ?'a = nat] by simp

lemma hex_value_digit: "d < 16 \<Longrightarrow> hex_value (hex_digits ! d) = d"
proof -
  assume "d < 16"
  then have "d \<in> {0, 1, 2, 3, 4, 5, 6, 7, 8, 9, 10, 11, 12, 13, 14, 15}"
    by simp arith
  then show ?thesis
    by (auto simp: hex_digits_def hex_value_def)
qed

lemma Hex_parse_stringify: "Hex_parse (Hex_stringify bs) = bs"
proof (induction bs)
  case Nil
  then show ?case by (simp add: Hex_stringify_def)
next
  case (Cons b bs)
  have "unat b div 16 < 16"
    using unat_byte_less [of b] by simp
  then have "hex_value (hex_digits ! (unat b div 16)) * 16 + hex_value (hex_digits ! (unat b mod 16))
             = unat b"
    by (simp add: hex_value_digit)
  then show ?case
    using Cons by (simp add: Hex_stringify_def)
qed

lemma Hex_stringify_take: "take (2 * n) (Hex_stringify bs) = Hex_stringify (take n bs)"
proof (induction bs arbitrary: n)
  case Nil
  then show ?case by (simp add: Hex_stringify_def)
next
  case (Cons b bs)
  then show ?case
    by (cases n) (simp_all add: Hex_stringify_def)
qed

lemma Hex_stringify_drop: "drop (2 * n) (Hex_stringify bs) = Hex_stringify (drop n bs)"
proof (induction bs arbitrary: n)
  case Nil
  then show ?case by (simp add: Hex_stringify_def)
next
  case (Cons b bs)
  then show ?case
    by (cases n) (simp_all add: Hex_stringify_def)
qed

lemma splitMasterKey_halves: "splitMasterKey w = (take 32 w, take 32 (drop 32 w))"
  using Hex_stringify_take [of 32 w] Hex_stringify_drop [of 32 w]
        Hex_stringify_take [of 32 "drop 32 w"]
  by (simp add: splitMasterKey_def slice_def Let_def Hex_parse_stringify)

lemma splitDerivedKey_halves: "splitDerivedKey w = (take 32 w, take 32 (drop 32 w))"
  using Hex_stringify_take [of 32 w] Hex_stringify_drop [of 32 w]
        Hex_stringify_take [of 32 "drop 32 w"]
  by (simp add: splitDerivedKey_def slice_def Let_def Hex_parse_stringify)

subsection \<open>The instance of the library\<close>

lemma string_of_bytes_of_string: "string_of_bytes (bytes_of_string s) = s"
  by (induction s) (simp_all add: string_of_bytes_def bytes_of_string_def unat_of_nat)

lemma byte_of_char_of_byte: "of_nat (unat a mod 256) = (a :: 8 word)"
  using unat_byte_less [of a] by simp

lemma bytes_of_string_of_bytes: "bytes_of_string (string_of_bytes w) = w"
  by (induction w) (simp_all add: string_of_bytes_def bytes_of_string_def byte_of_char_of_byte)

lemma length_bytes_of_string: "length (bytes_of_string s) = length s"
  by (simp add: bytes_of_string_def)

lemma string_of_bytes_append:
  "string_of_bytes (a @ b) = string_of_bytes a @ string_of_bytes b"
  "string_of_bytes [] = []"
  by (simp_all add: string_of_bytes_def)

lemma takeWhile_marks:
  "takeWhile (\<lambda>c. c = CHR ''#'') (replicate n CHR ''#'' @ CHR '':'' # rest) = replicate n CHR ''#''"
  by (induction n) simp_all

lemma get_put_string: "get_string (put_string s @ r) = (s, r)"
  by (simp add: get_string_def put_string_def takeWhile_marks Let_def)

lemma get_put_int: "get_int (put_int i @ r) = (i, r)"
  by (simp add: get_int_def put_int_def get_put_string)

lemma get_put_option_string: "get_option get_string (put_option put_string v @ r) = (v, r)"
  by (cases v) (simp_all add: get_put_string)

lemma get_put_option_int: "get_option get_int (put_option put_int v @ r) = (v, r)"
  by (cases v) (simp_all add: get_put_int)

lemma toy_parse_stringify: "toy_parse (toy_stringify e) = Some e"
  using get_put_option_int [of "envelope_createdAt e" "[]"]
  by (simp add: toy_parse_def toy_stringify_def get_put_string get_put_option_string
      get_put_option_int)

lemma toy_laws: "library_laws toy"
  by (auto simp: library_laws_def toy_def string_of_bytes_of_string bytes_of_string_of_bytes
      toy_parse_stringify length_bytes_of_string string_of_bytes_append MASTER_KEY_BYTES_def
      split: if_splits)

lemma toy_sel:
  "PBKDF2 toy = (\<lambda>pw s keySize n. replicate 32 0 @ take 32 (bytes_of_string pw @ replicate 32 0))"
  "Utf8_parse toy = (\<lambda>m. if CHR 0xFF \<in> set m then None else Some (bytes_of_string m))"
  "AES_encrypt toy = (\<lambda>w k v. w)"
  "AES_decrypt toy = (\<lambda>c k v. c)"
  "HmacSHA256 toy = (\<lambda>m k. bytes_of_string m @ k)"
  "Base64_stringify toy = string_of_bytes"
  "Base64_parse toy = bytes_of_string"
  "Utf8_stringify toy = (\<lambda>w. Some (string_of_bytes w))"
  by (simp_all add: toy_def)

lemma tryParseEnvelope_toy:
  "tryParseEnvelope toy (toy_stringify e) =
     (if version e \<noteq> ENVELOPE_VERSION then None
      else if mode e \<noteq> ''link'' \<and> mode e \<noteq> ''password'' then None
      else Some e)"
  by (simp add: tryParseEnvelope_def toy_def toy_parse_stringify)

lemma String_0: "String 0 = ''0''"
  by code_simp

lemma expectedIntegrity_toy_link:
  assumes "mode e = ''link''" "k \<noteq> []" "length k \<le> 32"
  shows "expectedIntegrity toy e \<lparr> key = Some k, password = pw \<rparr> = Some (mac_input e)"
  using assms
  by (simp add: expectedIntegrity_def resolveKeys_def splitMasterKey_halves toy_sel
      computeIntegrity_def mac_input_def string_of_bytes_append string_of_bytes_of_string
      length_bytes_of_string)

lemma expectedIntegrity_toy_password:
  assumes "mode e = ''password''" "salt e = Some s" "s \<noteq> []" "q \<noteq> []"
  shows "expectedIntegrity toy e \<lparr> key = k, password = Some q \<rparr> =
           Some (mac_input e @ string_of_bytes (take 32 (bytes_of_string q @ replicate 32 0)))"
  using assms
  by (simp add: expectedIntegrity_def resolveKeys_def deriveKeyFromPassword_def
      splitDerivedKey_halves toy_sel computeIntegrity_def mac_input_def string_of_bytes_append
      string_of_bytes_of_string length_bytes_of_string Let_def min_def)

lemma decryptMessage_toy_sealed:
  assumes "tryParseEnvelope toy p = Some e"
    and "expectedIntegrity toy e opts = Some (hmac e)"
    and "ciphertext e \<noteq> []"
  shows "snd (decryptMessage toy p opts) = Inr (ciphertext e)"
proof -
  obtain tr res where rk: "resolveKeys toy e opts = (tr, res)"
    by (cases "resolveKeys toy e opts")
  show ?thesis
  proof (cases res)
    case (Inl err)
    then show ?thesis
      using assms(2) rk by (simp add: expectedIntegrity_def)
  next
    case (Inr ks)
    obtain ak hk where ks: "ks = (ak, hk)" by (cases ks)
    have "computeIntegrity toy (mode e) (ciphertext e) (iv e) (salt e) (envelope_createdAt e) hk = hmac e"
      using assms(2) rk Inr ks by (simp add: expectedIntegrity_def)
    then show ?thesis
      using assms(1,3) rk Inr ks
      by (simp add: decryptMessage_versioned checkAndDecrypt_match toy_sel string_of_bytes_of_string)
  qed
qed

lemma sample_lengths:
  "length (random_iv sample_randomness) = IV_BYTES"
  "length (random_salt sample_randomness) = SALT_BYTES"
  "length (random_masterKey sample_randomness) = MASTER_KEY_BYTES"
  by (simp_all add: sample_randomness_def MASTER_KEY_BYTES_def SALT_BYTES_def IV_BYTES_def)

lemma link_envelope_facts:
  "tryParseEnvelope toy (toy_stringify link_envelope) = Some link_envelope"
  "tryParseEnvelope toy (toy_stringify (link_envelope\<lparr>ciphertext := ''ho''\<rparr>))
     = Some (link_envelope\<lparr>ciphertext := ''ho''\<rparr>)"
  "altered link_envelope (link_envelope\<lparr>ciphertext := ''ho''\<rparr>)"
  "mac_input link_envelope = ''link|hi|v||0|1.1.0''"
  "mac_input (link_envelope\<lparr>ciphertext := ''ho''\<rparr>) = ''link|ho|v||0|1.1.0''"
  by (simp_all add: tryParseEnvelope_toy link_envelope_def ENVELOPE_VERSION_def altered_def
      one_byte_changed_def mac_input_eq String_0)

lemma password_envelope_facts:
  "tryParseEnvelope toy (toy_stringify password_envelope) = Some password_envelope"
  "mac_input password_envelope = ''password|hi|v|s|0|1.1.0''"
  "mode password_envelope = ''password''"
  "salt password_envelope = Some ''s''"
  "hmac password_envelope =
     ''password|hi|v|s|0|1.1.0'' @ string_of_bytes (take 32 (bytes_of_string ''right'' @ replicate 32 0))"
  "ciphertext password_envelope = ''hi''"
  "iterations password_envelope = Some 1"
  by (simp_all add: tryParseEnvelope_toy password_envelope_def ENVELOPE_VERSION_def
      mac_input_eq String_0)

lemma password_envelope_opens:
  "snd (decryptMessage toy (toy_stringify password_envelope)
         \<lparr> key = None, password = Some ''right'' \<rparr>) = Inr ''hi''"
proof -
  have "expectedIntegrity toy password_envelope \<lparr> key = None, password = Some ''right'' \<rparr>
          = Some (hmac password_envelope)"
    by (simp add: expectedIntegrity_toy_password [OF password_envelope_facts(3,4)]
        password_envelope_facts(2,5))
  from decryptMessage_toy_sealed [OF password_envelope_facts(1) this]
  show ?thesis
    by (simp add: password_envelope_facts(6))
qed

subsection \<open>Round trip\<close>

lemma base64_nonempty:
  assumes "library_laws C" "w \<noteq> []"
  shows "Base64_stringify C w \<noteq> []"
proof
  have rt: "\<And>u. Base64_parse C (Base64_stringify C u) = u" and e: "Base64_stringify C [] = []"
    using assms(1) by (simp_all add: library_laws_def)
  assume "Base64_stringify C w = []"
  then have "Base64_parse C (Base64_stringify C w) = Base64_parse C (Base64_stringify C [])"
    by (simp add: e)
  then have "w = []"
    by (simp only: rt)
  then show False
    using assms(2) by simp
qed

text \<open>
  C1, with the empty message and the strings that \<open>Utf8.parse\<close> rejects set apart.
  Assume the laws of the library (\<open>library_laws\<close>) and that the random iv, salt and
  master key have the lengths the source asks for. Then:
  \<^item> in link mode (no password, or the empty one), for a message that \<open>Utf8.parse\<close>
    accepts, \<open>encryptMessage\<close> returns, and its payload decrypts under the returned
    \<open>shareKey\<close> to the message if the message is not empty; for the empty message
    \<open>decryptMessage\<close> fails with \<open>DecryptFailed\<close>;
  \<^item> in password mode the same holds under the same password, when \<open>Utf8.parse\<close>
    accepts the password as well;
  \<^item> when \<open>Utf8.parse\<close> rejects the message, or the password in password mode,
    \<open>encryptMessage\<close> throws \<open>URIError\<close>.
  The law of the cipher is assumed for keys of 32 bytes and ivs of 16 bytes only; the
  proof shows that the cipher key is the first half of the master key, or of the
  \<open>PBKDF2\<close> output, and has 32 bytes.
\<close>

theorem round_trip_of_nonempty_message:
  assumes "library_laws C"
    and "length (random_iv rnd) = IV_BYTES"
    and "length (random_salt rnd) = SALT_BYTES"
    and "length (random_masterKey rnd) = MASTER_KEY_BYTES"
  shows "(falsy pw \<longrightarrow> Utf8_parse C message \<noteq> None \<longrightarrow>
            (\<exists>r. encryptMessage C rnd now message pw = Inr r
               \<and> \<not> requiresPassword r \<and> shareKey r \<noteq> None
               \<and> snd (decryptMessage C (payload r) \<lparr> key = shareKey r, password = None \<rparr>)
                   = (if message = [] then Inl DecryptFailed else Inr message)))
       \<and> (\<not> falsy pw \<longrightarrow> Utf8_parse C (the pw) \<noteq> None \<longrightarrow> Utf8_parse C message \<noteq> None \<longrightarrow>
            (\<exists>r. encryptMessage C rnd now message pw = Inr r
               \<and> requiresPassword r \<and> shareKey r = None
               \<and> snd (decryptMessage C (payload r) \<lparr> key = None, password = pw \<rparr>)
                   = (if message = [] then Inl DecryptFailed else Inr message)))
       \<and> (Utf8_parse C message = None \<or> (\<not> falsy pw \<and> Utf8_parse C (the pw) = None) \<longrightarrow>
            encryptMessage C rnd now message pw = Inl URIError)"
proof (intro conjI impI)
  have b64: "\<And>w. Base64_parse C (Base64_stringify C w) = w"
    and json: "\<And>e. JSON_parse C (JSON_stringify C e) = Some e"
    and aes: "\<And>w k v. length k = 32 \<Longrightarrow> length v = 16 \<Longrightarrow>
                 AES_decrypt C (AES_encrypt C w k v) k v = w"
    and utf8: "\<And>m w. Utf8_parse C m = Some w \<Longrightarrow> Utf8_stringify C w = Some m"
    and kdf: "\<And>p s n. Utf8_parse C p \<noteq> None \<Longrightarrow>
                 length (PBKDF2 C p s (MASTER_KEY_BYTES div 4) n) = MASTER_KEY_BYTES"
    using assms(1) by (simp_all add: library_laws_def)
  have iv16: "length (random_iv rnd) = 16"
    using assms(2) by (simp add: IV_BYTES_def)
  {
    assume link: "falsy pw" and "Utf8_parse C message \<noteq> None"
    then obtain plaintext where msg: "Utf8_parse C message = Some plaintext"
      by auto
    define master where "master = random_masterKey rnd"
    have split: "splitMasterKey master = (take 32 master, take 32 (drop 32 master))"
      using Hex_stringify_take [of 32 master] Hex_stringify_drop [of 32 master]
            Hex_stringify_take [of 32 "drop 32 master"]
      by (simp add: splitMasterKey_def slice_def Let_def Hex_parse_stringify)
    have len: "length master = 64"
      using assms(4) by (simp add: master_def MASTER_KEY_BYTES_def)
    have key: "length (fst (splitMasterKey master)) = 32"
      using len by (simp add: split)
    have m_ne: "Base64_stringify C master \<noteq> []"
      using len by (intro base64_nonempty [OF assms(1)]) auto
    have restored: "Utf8_stringify C
        (AES_decrypt C (AES_encrypt C plaintext (fst (splitMasterKey master)) (random_iv rnd))
           (fst (splitMasterKey master)) (random_iv rnd)) = Some message"
      by (simp add: aes [OF key iv16] utf8 [OF msg])
    show "\<exists>r. encryptMessage C rnd now message pw = Inr r
            \<and> \<not> requiresPassword r \<and> shareKey r \<noteq> None
            \<and> snd (decryptMessage C (payload r) \<lparr> key = shareKey r, password = None \<rparr>)
                = (if message = [] then Inl DecryptFailed else Inr message)"
      using m_ne link msg restored
      by (simp add: encryptMessage_def Let_def split_def decryptMessage_def tryParseEnvelope_def
          json resolveKeys_def b64 checkAndDecrypt_def timingSafeEqual_iff
          master_def [symmetric])
  }
  {
    assume "\<not> falsy pw" "Utf8_parse C (the pw) \<noteq> None" "Utf8_parse C message \<noteq> None"
    then obtain q u plaintext where q: "pw = Some q" "q \<noteq> []" "Utf8_parse C q = Some u"
      and msg: "Utf8_parse C message = Some plaintext"
      by (cases pw) auto
    define derived where
      "derived = PBKDF2 C q (random_salt rnd) (MASTER_KEY_BYTES div 4) PBKDF2_ITERATIONS"
    have split: "splitDerivedKey derived = (take 32 derived, take 32 (drop 32 derived))"
      using Hex_stringify_take [of 32 derived] Hex_stringify_drop [of 32 derived]
            Hex_stringify_take [of 32 "drop 32 derived"]
      by (simp add: splitDerivedKey_def slice_def Let_def Hex_parse_stringify)
    have len: "length derived = 64"
      using kdf [of q "random_salt rnd" PBKDF2_ITERATIONS] q(3)
      by (simp add: derived_def MASTER_KEY_BYTES_def)
    have key: "length (fst (splitDerivedKey derived)) = 32"
      using len by (simp add: split)
    have s_ne: "Base64_stringify C (random_salt rnd) \<noteq> []"
      using assms(3) by (intro base64_nonempty [OF assms(1)]) (auto simp: SALT_BYTES_def)
    have restored: "Utf8_stringify C
        (AES_decrypt C (AES_encrypt C plaintext (fst (splitDerivedKey derived)) (random_iv rnd))
           (fst (splitDerivedKey derived)) (random_iv rnd)) = Some message"
      by (simp add: aes [OF key iv16] utf8 [OF msg])
    show "\<exists>r. encryptMessage C rnd now message pw = Inr r
            \<and> requiresPassword r \<and> shareKey r = None
            \<and> snd (decryptMessage C (payload r) \<lparr> key = None, password = pw \<rparr>)
                = (if message = [] then Inl DecryptFailed else Inr message)"
      using s_ne q msg restored
      by (simp add: encryptMessage_def Let_def split_def decryptMessage_def tryParseEnvelope_def
          json resolveKeys_def b64 checkAndDecrypt_def timingSafeEqual_iff
          deriveKeyFromPassword_def derived_def [symmetric])
  }
  {
    assume "Utf8_parse C message = None \<or> (\<not> falsy pw \<and> Utf8_parse C (the pw) = None)"
    then show "encryptMessage C rnd now message pw = Inl URIError"
      by (auto simp: encryptMessage_def Let_def split_def split: option.splits)
  }
qed

text \<open>
  The assumptions of C1 hold for the instance: a message in both modes, and a message
  that the instance's \<open>Utf8_parse\<close> rejects.
\<close>

theorem round_trip_of_nonempty_message_witness:
  "(\<exists>r. encryptMessage toy sample_randomness 0 ''hi'' None = Inr r
      \<and> snd (decryptMessage toy (payload r) \<lparr> key = shareKey r, password = None \<rparr>) = Inr ''hi'')
   \<and> (\<exists>r. encryptMessage toy sample_randomness 0 ''hi'' (Some ''right'') = Inr r
      \<and> snd (decryptMessage toy (payload r) \<lparr> key = None, password = Some ''right'' \<rparr>) = Inr ''hi'')
   \<and> encryptMessage toy sample_randomness 0 [CHR 0xFF] None = Inl URIError"
  using round_trip_of_nonempty_message
          [where C = toy and rnd = sample_randomness and message = "''hi''" and now = 0
             and pw = None, OF toy_laws sample_lengths]
        round_trip_of_nonempty_message
          [where C = toy and rnd = sample_randomness and message = "''hi''" and now = 0
             and pw = "Some ''right''", OF toy_laws sample_lengths]
        round_trip_of_nonempty_message
          [where C = toy and rnd = sample_randomness and message = "[CHR 0xFF]" and now = 0
             and pw = None, OF toy_laws sample_lengths]
  by (auto simp: toy_sel)

text \<open>
  C1, as stated for every message, fails for the empty message: \<open>encryptMessage\<close>
  returns a payload, and it decrypts to the empty string, which \<open>decryptMessage\<close> reports
  as a failed decryption.
\<close>

theorem empty_message_does_not_round_trip:
  "\<exists>r. encryptMessage toy sample_randomness 0 [] None = Inr r
     \<and> snd (decryptMessage toy (payload r) \<lparr> key = shareKey r, password = None \<rparr>)
         = Inl DecryptFailed"
proof -
  have key: "Base64_stringify toy (random_masterKey sample_randomness) \<noteq> []"
    by (simp add: toy_sel sample_randomness_def string_of_bytes_def)
  have json: "\<And>e. JSON_parse toy (JSON_stringify toy e) = Some e"
    by (simp add: toy_def toy_parse_stringify)
  show ?thesis
    using key
    by (simp add: encryptMessage_def Let_def split_def decryptMessage_def tryParseEnvelope_def
        json resolveKeys_def checkAndDecrypt_def timingSafeEqual_iff toy_sel
        bytes_of_string_of_bytes string_of_bytes_of_string)
qed


subsection \<open>Altered envelopes are rejected\<close>

lemma filter_zip_same: "filter (\<lambda>(a, b). a \<noteq> b) (zip s s) = []"
  by (induction s) auto

lemma one_byte_changed_neq:
  assumes "one_byte_changed s s'"
  shows "s' \<noteq> s" and "length s' = length s"
  using assms by (auto simp: one_byte_changed_def filter_zip_same)

lemma altered_keeps:
  assumes "altered e e'"
  shows "mode e' = mode e" and "falsy (salt e') = falsy (salt e)"
proof -
  consider
      (ct) "e' = e\<lparr>ciphertext := ciphertext e'\<rparr>"
    | (iv) "e' = e\<lparr>iv := iv e'\<rparr>"
    | (salt) s s' where "e' = e\<lparr>salt := salt e'\<rparr>" "salt e = Some s" "salt e' = Some s'"
        "one_byte_changed s s'"
    | (tag) "e' = e\<lparr>hmac := hmac e'\<rparr>"
    using assms by (auto simp: altered_def split: option.splits)
  then have "mode e' = mode e \<and> falsy (salt e') = falsy (salt e)"
  proof cases
    case ct
    show ?thesis by (subst ct, subst (2) ct, simp)
  next
    case iv
    show ?thesis by (subst iv, subst (2) iv, simp)
  next
    case salt
    have "mode e' = mode e" by (subst salt(1), simp)
    moreover have "(s' = []) = (s = [])"
      using one_byte_changed_neq(2) [OF salt(4)] by auto
    ultimately show ?thesis using salt(2,3) by simp
  next
    case tag
    show ?thesis by (subst tag, subst (2) tag, simp)
  qed
  then show "mode e' = mode e" and "falsy (salt e') = falsy (salt e)"
    by simp_all
qed

lemma resolveKeys_resolved_iff:
  assumes "mode e' = mode e" and "falsy (salt e') = falsy (salt e)"
    and "snd (resolveKeys C e opts) = Inr ks"
  shows "\<exists>ks'. snd (resolveKeys C e' opts) = Inr ks'"
  using assms by (simp add: resolveKeys_def Let_def split: if_splits)

lemma Base64_stringify_inject:
  assumes "\<forall>w. Base64_parse C (Base64_stringify C w) = w"
    and "Base64_stringify C a = Base64_stringify C b"
  shows "a = b"
proof -
  have "Base64_parse C (Base64_stringify C a) = Base64_parse C (Base64_stringify C b)"
    using assms(2) by simp
  then show ?thesis
    using assms(1) by simp
qed

text \<open>
  C2. Let a payload parse to a versioned envelope and decrypt under the given credential,
  and let a second payload parse to the same envelope with one byte of its ciphertext, iv,
  salt or tag changed. Two assumptions are made on the library: Base64 decoding inverts
  encoding, and \<open>HmacSHA256\<close> does not return the same MAC for the two authenticated
  strings when they differ. Here \<open>K\<close> and \<open>K'\<close> are the integrity keys of the two
  envelopes: the second 32 bytes of the \<open>PBKDF2\<close> output (password mode) or of the decoded
  link key (link mode). Then \<open>decryptMessage\<close> on the second payload fails with the
  integrity error and its trace has no call of the cipher. The proof shows that a change
  of the ciphertext, of the iv or of the salt changes the authenticated string, and that
  a change of the tag is rejected without the assumption on the MAC. Whenever
  \<open>decryptMessage\<close> fails with the integrity error, for any payload and options, the
  cipher has not been called.
\<close>

theorem altered_envelope_rejected:
  assumes "tryParseEnvelope C p = Some e" and "tryParseEnvelope C p' = Some e'"
    and "altered e e'"
    and "snd (decryptMessage C p opts) = Inr m"
    and "\<forall>w. Base64_parse C (Base64_stringify C w) = w"
    and "K = take 32 (drop 32
           (if mode e = ''password'' then
              PBKDF2 C (the (password opts)) (Base64_parse C (the (salt e))) 16
                (case iterations e of None \<Rightarrow> 150000 | Some i \<Rightarrow> i)
            else Base64_parse C (the (key opts))))"
    and "K' = take 32 (drop 32
           (if mode e' = ''password'' then
              PBKDF2 C (the (password opts)) (Base64_parse C (the (salt e'))) 16
                (case iterations e' of None \<Rightarrow> 150000 | Some i \<Rightarrow> i)
            else Base64_parse C (the (key opts))))"
    and "mac_input e' \<noteq> mac_input e \<Longrightarrow>
           HmacSHA256 C (mac_input e') K' \<noteq> HmacSHA256 C (mac_input e) K"
  shows "snd (decryptMessage C p' opts) = Inl IntegrityFailed
       \<and> \<not> list_ex is_Decrypt (fst (decryptMessage C p' opts))
       \<and> (\<forall>q opts'. snd (decryptMessage C q opts') = Inl IntegrityFailed \<longrightarrow>
            \<not> list_ex is_Decrypt (fst (decryptMessage C q opts')))"
proof -
  have mac: "computeIntegrity C (mode x) (ciphertext x) (iv x) (salt x) (envelope_createdAt x) hk
               = Base64_stringify C (HmacSHA256 C (mac_input x) hk)" for x hk
    by (simp add: computeIntegrity_def mac_input_def)
  have halves: "splitDerivedKey w = (take 32 w, take 32 (drop 32 w))"
    "splitMasterKey w = (take 32 w, take 32 (drop 32 w))" for w
    using Hex_stringify_take [of 32 w] Hex_stringify_drop [of 32 w]
          Hex_stringify_take [of 32 "drop 32 w"]
    by (simp_all add: splitDerivedKey_def splitMasterKey_def slice_def Let_def Hex_parse_stringify)
  obtain tr ak hk where rk: "resolveKeys C e opts = (tr, Inr (ak, hk))"
    and sealed: "expectedIntegrity C e opts = Some (hmac e)"
    using decrypts_then_sealed [OF assms(1,4)] by blast
  have "\<exists>ks'. snd (resolveKeys C e' opts) = Inr ks'"
    using resolveKeys_resolved_iff [OF altered_keeps [OF assms(3)], of C opts "(ak, hk)"] rk
    by simp
  then obtain tr' ak' hk' where rk': "resolveKeys C e' opts = (tr', Inr (ak', hk'))"
    by (cases "resolveKeys C e' opts") auto
  have hk: "hk = K"
    using rk unfolding assms(6)
    by (auto simp: resolveKeys_def deriveKeyFromPassword_def halves Let_def
        MASTER_KEY_BYTES_def PBKDF2_ITERATIONS_def split: if_splits option.splits)
  have hk': "hk' = K'"
    using rk' unfolding assms(7)
    by (auto simp: resolveKeys_def deriveKeyFromPassword_def halves Let_def
        MASTER_KEY_BYTES_def PBKDF2_ITERATIONS_def split: if_splits option.splits)
  have tag: "Base64_stringify C (HmacSHA256 C (mac_input e) K) = hmac e"
    using sealed rk by (simp add: expectedIntegrity_def mac hk)
  have macs: "Base64_stringify C (HmacSHA256 C (mac_input e') K') \<noteq> hmac e"
    if "mac_input e' \<noteq> mac_input e"
    using assms(8) [OF that] Base64_stringify_inject [OF assms(5)] tag by metis
  have "Base64_stringify C (HmacSHA256 C (mac_input e') K') \<noteq> hmac e'"
  proof -
    consider
        (ct) "e' = e\<lparr>ciphertext := ciphertext e'\<rparr>" "one_byte_changed (ciphertext e) (ciphertext e')"
      | (iv) "e' = e\<lparr>iv := iv e'\<rparr>" "one_byte_changed (iv e) (iv e')"
      | (salt) s s' where "e' = e\<lparr>salt := salt e'\<rparr>" "salt e = Some s" "salt e' = Some s'"
          "one_byte_changed s s'"
      | (tag) "e' = e\<lparr>hmac := hmac e'\<rparr>" "one_byte_changed (hmac e) (hmac e')"
      using assms(3) by (auto simp: altered_def split: option.splits)
    then show ?thesis
    proof cases
      case ct
      have same: "hmac e' = hmac e"
        by (subst ct(1), simp)
      have "mac_input e' \<noteq> mac_input e"
        using one_byte_changed_neq [OF ct(2)]
        by (subst ct(1)) (simp add: mac_input_def segments_def)
      then show ?thesis
        using macs same by simp
    next
      case iv
      have same: "hmac e' = hmac e"
        by (subst iv(1), simp)
      have "mac_input e' \<noteq> mac_input e"
        using one_byte_changed_neq [OF iv(2)]
        by (subst iv(1)) (simp add: mac_input_def segments_def)
      then show ?thesis
        using macs same by simp
    next
      case salt
      have same: "hmac e' = hmac e"
        by (subst salt(1), simp)
      have "mac_input e' \<noteq> mac_input e"
        using one_byte_changed_neq [OF salt(4)] salt(2,3)
        by (subst salt(1)) (simp add: mac_input_def segments_def)
      then show ?thesis
        using macs same by simp
    next
      case tag
      have kept: "mode e' = mode e" "salt e' = salt e" "iterations e' = iterations e"
        "mac_input e' = mac_input e"
        by (subst tag(1), simp add: mac_input_def segments_def)+
      have "K' = K"
        by (simp add: assms(6,7) kept)
      moreover have "hmac e' \<noteq> hmac e"
        using one_byte_changed_neq [OF tag(2)] by simp
      ultimately show ?thesis
        using \<open>Base64_stringify C (HmacSHA256 C (mac_input e) K) = hmac e\<close> kept(4) by simp
    qed
  qed
  then have "decryptMessage C p' opts = (tr' @ [Mac (mac_input e') hk'], Inl IntegrityFailed)"
    using assms(2) rk'
    by (simp add: decryptMessage_def checkAndDecrypt_def Let_def timingSafeEqual_iff mac hk')
  moreover have "\<not> list_ex is_Decrypt tr'"
    using rk' by (auto simp: resolveKeys_def Let_def split: if_splits)
  ultimately have "snd (decryptMessage C p' opts) = Inl IntegrityFailed"
    and "\<not> list_ex is_Decrypt (fst (decryptMessage C p' opts))"
    by simp_all
  then show ?thesis
    using integrity_failure_before_decrypt by blast
qed

text \<open>
  An altered ciphertext, rejected under the sample link key: the MACs of the instance
  differ on the two authenticated strings.
\<close>

theorem altered_envelope_rejected_witness:
  "snd (decryptMessage toy (toy_stringify link_envelope) \<lparr> key = Some ''k'', password = None \<rparr>)
     = Inr ''hi''
   \<and> altered link_envelope (link_envelope\<lparr>ciphertext := ''ho''\<rparr>)
   \<and> HmacSHA256 toy (mac_input (link_envelope\<lparr>ciphertext := ''ho''\<rparr>))
        (take 32 (drop 32 (Base64_parse toy ''k'')))
       \<noteq> HmacSHA256 toy (mac_input link_envelope) (take 32 (drop 32 (Base64_parse toy ''k'')))
   \<and> snd (decryptMessage toy (toy_stringify (link_envelope\<lparr>ciphertext := ''ho''\<rparr>))
            \<lparr> key = Some ''k'', password = None \<rparr>)
     = Inl IntegrityFailed
   \<and> \<not> list_ex is_Decrypt
         (fst (decryptMessage toy (toy_stringify (link_envelope\<lparr>ciphertext := ''ho''\<rparr>))
            \<lparr> key = Some ''k'', password = None \<rparr>))"
proof -
  have fields: "mode link_envelope = ''link''" "hmac link_envelope = ''link|hi|v||0|1.1.0''"
    "ciphertext link_envelope = ''hi''"
    by (simp_all add: link_envelope_def)
  have "expectedIntegrity toy link_envelope \<lparr> key = Some ''k'', password = None \<rparr>
          = Some (hmac link_envelope)"
    by (simp add: expectedIntegrity_toy_link link_envelope_facts(4) fields)
  from decryptMessage_toy_sealed [OF link_envelope_facts(1) this]
  have sealed: "snd (decryptMessage toy (toy_stringify link_envelope)
                  \<lparr> key = Some ''k'', password = None \<rparr>) = Inr ''hi''"
    by (simp add: fields)
  have b64: "\<forall>w. Base64_parse toy (Base64_stringify toy w) = w"
    by (simp add: toy_sel bytes_of_string_of_bytes)
  have macs: "HmacSHA256 toy (mac_input (link_envelope\<lparr>ciphertext := ''ho''\<rparr>))
        (take 32 (drop 32 (Base64_parse toy ''k'')))
       \<noteq> HmacSHA256 toy (mac_input link_envelope) (take 32 (drop 32 (Base64_parse toy ''k'')))"
    by (simp add: toy_sel link_envelope_facts(4,5) bytes_of_string_def)
  have link: "mode (link_envelope\<lparr>ciphertext := ''ho''\<rparr>) = ''link''"
    by (simp add: fields)
  note rejected = altered_envelope_rejected [OF link_envelope_facts(1,2,3) sealed b64 refl refl]
  have "snd (decryptMessage toy (toy_stringify (link_envelope\<lparr>ciphertext := ''ho''\<rparr>))
            \<lparr> key = Some ''k'', password = None \<rparr>) = Inl IntegrityFailed
      \<and> \<not> list_ex is_Decrypt
         (fst (decryptMessage toy (toy_stringify (link_envelope\<lparr>ciphertext := ''ho''\<rparr>))
            \<lparr> key = Some ''k'', password = None \<rparr>))"
  proof -
    have "HmacSHA256 toy (mac_input (link_envelope\<lparr>ciphertext := ''ho''\<rparr>))
            (take 32 (drop 32
              (if mode (link_envelope\<lparr>ciphertext := ''ho''\<rparr>) = ''password'' then
                 PBKDF2 toy (the (password \<lparr> key = Some ''k'', password = None \<rparr>))
                   (Base64_parse toy (the (salt (link_envelope\<lparr>ciphertext := ''ho''\<rparr>)))) 16
                   (case iterations (link_envelope\<lparr>ciphertext := ''ho''\<rparr>) of
                      None \<Rightarrow> 150000 | Some i \<Rightarrow> i)
               else Base64_parse toy (the (key \<lparr> key = Some ''k'', password = None \<rparr>)))))
        \<noteq> HmacSHA256 toy (mac_input link_envelope)
            (take 32 (drop 32
              (if mode link_envelope = ''password'' then
                 PBKDF2 toy (the (password \<lparr> key = Some ''k'', password = None \<rparr>))
                   (Base64_parse toy (the (salt link_envelope))) 16
                   (case iterations link_envelope of None \<Rightarrow> 150000 | Some i \<Rightarrow> i)
               else Base64_parse toy (the (key \<lparr> key = Some ''k'', password = None \<rparr>)))))"
      using macs by (simp add: link fields(1))
    from rejected [OF this] show ?thesis by blast
  qed
  then show ?thesis
    using sealed link_envelope_facts(3) macs by blast
qed


subsection \<open>Wrong and missing credentials\<close>

text \<open>
  C3, with the empty password counted as missing. For a payload that parses to a
  versioned envelope:
  \<^item> in password mode, let the payload decrypt under the password \<open>right\<close>, and let
    \<open>wrong\<close> be a different, non-empty password that \<open>Utf8.parse\<close> accepts (\<open>PBKDF2\<close>
    converts the password with it). Four assumptions are made on the library: Base64
    decoding inverts encoding; \<open>toString(Utf8)\<close> inverts \<open>Utf8.parse\<close> on the strings it
    accepts; the \<open>PBKDF2\<close> outputs for the two passwords (same salt, same iteration
    count) differ in their second 32 bytes, the integrity keys \<open>kw\<close> and \<open>kr\<close>, when the
    converted passwords differ; and \<open>HmacSHA256\<close> of the authenticated string under these
    two different keys differs. Then \<open>decryptMessage\<close> under \<open>wrong\<close> fails with the
    integrity error, and the cipher is not called;
  \<^item> in password mode, an absent or empty password fails with \<open>PasswordRequired\<close> and an
    empty trace;
  \<^item> in link mode, an absent or empty key fails with \<open>MissingKey\<close> and an empty trace: no
    key derivation, MAC or decryption has run.
\<close>

theorem wrong_or_missing_credential:
  assumes "tryParseEnvelope C p = Some e"
  shows "(mode e = ''password'' \<longrightarrow>
            snd (decryptMessage C p \<lparr> key = k, password = Some right \<rparr>) = Inr m \<longrightarrow>
            wrong \<noteq> right \<longrightarrow> wrong \<noteq> [] \<longrightarrow> Utf8_parse C wrong \<noteq> None \<longrightarrow>
            (\<forall>w. Base64_parse C (Base64_stringify C w) = w) \<longrightarrow>
            (\<forall>s w. Utf8_parse C s = Some w \<longrightarrow> Utf8_stringify C w = Some s) \<longrightarrow>
            (let S = Base64_parse C (the (salt e));
                 N = (case iterations e of None \<Rightarrow> 150000 | Some i \<Rightarrow> i);
                 kw = take 32 (drop 32 (PBKDF2 C wrong S 16 N));
                 kr = take 32 (drop 32 (PBKDF2 C right S 16 N))
             in (Utf8_parse C wrong \<noteq> Utf8_parse C right \<longrightarrow> kw \<noteq> kr)
              \<and> (kw \<noteq> kr \<longrightarrow> HmacSHA256 C (mac_input e) kw \<noteq> HmacSHA256 C (mac_input e) kr)) \<longrightarrow>
            snd (decryptMessage C p \<lparr> key = k', password = Some wrong \<rparr>) = Inl IntegrityFailed
            \<and> \<not> list_ex is_Decrypt (fst (decryptMessage C p \<lparr> key = k', password = Some wrong \<rparr>)))
       \<and> (mode e = ''password'' \<longrightarrow> falsy (password opts) \<longrightarrow>
            decryptMessage C p opts = ([], Inl PasswordRequired))
       \<and> (mode e \<noteq> ''password'' \<longrightarrow> falsy (key opts) \<longrightarrow>
            decryptMessage C p opts = ([], Inl MissingKey))"
proof (intro conjI impI)
  define S where "S = Base64_parse C (the (salt e))"
  define N where "N = (case iterations e of None \<Rightarrow> 150000 | Some i \<Rightarrow> i)"
  define kw where "kw = take 32 (drop 32 (PBKDF2 C wrong S 16 N))"
  define kr where "kr = take 32 (drop 32 (PBKDF2 C right S 16 N))"
  assume pm: "mode e = ''password''"
    and ok: "snd (decryptMessage C p \<lparr> key = k, password = Some right \<rparr>) = Inr m"
    and other: "wrong \<noteq> right"
    and wrong: "wrong \<noteq> []"
    and accepted: "Utf8_parse C wrong \<noteq> None"
    and b64: "\<forall>w. Base64_parse C (Base64_stringify C w) = w"
    and utf8: "\<forall>s w. Utf8_parse C s = Some w \<longrightarrow> Utf8_stringify C w = Some s"
    and crypto: "let S = Base64_parse C (the (salt e));
                 N = (case iterations e of None \<Rightarrow> 150000 | Some i \<Rightarrow> i);
                 kw = take 32 (drop 32 (PBKDF2 C wrong S 16 N));
                 kr = take 32 (drop 32 (PBKDF2 C right S 16 N))
             in (Utf8_parse C wrong \<noteq> Utf8_parse C right \<longrightarrow> kw \<noteq> kr)
              \<and> (kw \<noteq> kr \<longrightarrow> HmacSHA256 C (mac_input e) kw \<noteq> HmacSHA256 C (mac_input e) kr)"
  have converted: "Utf8_parse C wrong \<noteq> Utf8_parse C right"
  proof
    assume same: "Utf8_parse C wrong = Utf8_parse C right"
    obtain u where u: "Utf8_parse C wrong = Some u"
      using accepted by auto
    have "Utf8_parse C right = Some u"
      using u same by simp
    then have "Utf8_stringify C u = Some right"
      using utf8 by blast
    moreover have "Utf8_stringify C u = Some wrong"
      using utf8 u by blast
    ultimately show False
      using other by simp
  qed
  have macs: "HmacSHA256 C (mac_input e) kw \<noteq> HmacSHA256 C (mac_input e) kr"
    using crypto converted by (simp add: Let_def S_def N_def kw_def kr_def)
  have mac: "computeIntegrity C (mode e) (ciphertext e) (iv e) (salt e) (envelope_createdAt e) hk
               = Base64_stringify C (HmacSHA256 C (mac_input e) hk)" for hk
    by (simp add: computeIntegrity_def mac_input_def)
  have halves: "splitDerivedKey w = (take 32 w, take 32 (drop 32 w))" for w
    using Hex_stringify_take [of 32 w] Hex_stringify_drop [of 32 w]
          Hex_stringify_take [of 32 "drop 32 w"]
    by (simp add: splitDerivedKey_def slice_def Let_def Hex_parse_stringify)
  obtain tr ak hk where rk: "resolveKeys C e \<lparr> key = k, password = Some right \<rparr> = (tr, Inr (ak, hk))"
    and sealed: "expectedIntegrity C e \<lparr> key = k, password = Some right \<rparr> = Some (hmac e)"
    using decrypts_then_sealed [OF assms ok] by blast
  have salt: "\<not> falsy (salt e)"
    using rk pm by (auto simp: resolveKeys_def split: if_splits)
  have hk: "hk = kr"
    using rk pm unfolding kr_def S_def N_def
    by (auto simp: resolveKeys_def deriveKeyFromPassword_def halves Let_def
        MASTER_KEY_BYTES_def PBKDF2_ITERATIONS_def split: if_splits option.splits)
  have rk': "resolveKeys C e \<lparr> key = k', password = Some wrong \<rparr>
            = ([Derive wrong S N], Inr (take 32 (PBKDF2 C wrong S 16 N), kw))"
    using pm wrong salt unfolding kw_def S_def N_def
    by (simp add: resolveKeys_def deriveKeyFromPassword_def halves Let_def
        MASTER_KEY_BYTES_def PBKDF2_ITERATIONS_def split: option.splits)
  have tag: "Base64_stringify C (HmacSHA256 C (mac_input e) kr) = hmac e"
    using sealed rk by (simp add: expectedIntegrity_def mac hk)
  have "Base64_stringify C (HmacSHA256 C (mac_input e) kw) \<noteq> hmac e"
    using macs Base64_stringify_inject [OF b64] tag by metis
  then have failed: "decryptMessage C p \<lparr> key = k', password = Some wrong \<rparr>
      = ([Derive wrong S N, Mac (mac_input e) kw], Inl IntegrityFailed)"
    using assms rk'
    by (simp add: decryptMessage_def checkAndDecrypt_def Let_def timingSafeEqual_iff mac)
  then show "snd (decryptMessage C p \<lparr> key = k', password = Some wrong \<rparr>) = Inl IntegrityFailed"
    and "\<not> list_ex is_Decrypt (fst (decryptMessage C p \<lparr> key = k', password = Some wrong \<rparr>))"
    by simp_all
next
  assume "mode e = ''password''" "falsy (password opts)"
  then show "decryptMessage C p opts = ([], Inl PasswordRequired)"
    using assms by (simp add: decryptMessage_def resolveKeys_def)
next
  assume "mode e \<noteq> ''password''" "falsy (key opts)"
  then show "decryptMessage C p opts = ([], Inl MissingKey)"
    using assms by (simp add: decryptMessage_def resolveKeys_def)
qed

text \<open>
  A wrong password on the sample password envelope, for which the integrity keys and the
  MACs of the instance differ, and a link envelope without key.
\<close>

theorem wrong_or_missing_credential_witness:
  "snd (decryptMessage toy (toy_stringify password_envelope)
         \<lparr> key = None, password = Some ''right'' \<rparr>) = Inr ''hi''
   \<and> take 32 (drop 32 (PBKDF2 toy ''wrong'' (Base64_parse toy ''s'') 16 1))
       \<noteq> take 32 (drop 32 (PBKDF2 toy ''right'' (Base64_parse toy ''s'') 16 1))
   \<and> HmacSHA256 toy (mac_input password_envelope)
         (take 32 (drop 32 (PBKDF2 toy ''wrong'' (Base64_parse toy ''s'') 16 1)))
       \<noteq> HmacSHA256 toy (mac_input password_envelope)
         (take 32 (drop 32 (PBKDF2 toy ''right'' (Base64_parse toy ''s'') 16 1)))
   \<and> snd (decryptMessage toy (toy_stringify password_envelope)
         \<lparr> key = None, password = Some ''wrong'' \<rparr>) = Inl IntegrityFailed
   \<and> decryptMessage toy (toy_stringify link_envelope) \<lparr> key = None, password = None \<rparr>
       = ([], Inl MissingKey)"
proof -
  have keys: "take 32 (drop 32 (PBKDF2 toy ''wrong'' (Base64_parse toy ''s'') 16 1))
       \<noteq> take 32 (drop 32 (PBKDF2 toy ''right'' (Base64_parse toy ''s'') 16 1))"
    by (simp add: toy_sel bytes_of_string_def)
  have macs: "HmacSHA256 toy (mac_input password_envelope)
         (take 32 (drop 32 (PBKDF2 toy ''wrong'' (Base64_parse toy ''s'') 16 1)))
       \<noteq> HmacSHA256 toy (mac_input password_envelope)
         (take 32 (drop 32 (PBKDF2 toy ''right'' (Base64_parse toy ''s'') 16 1)))"
    by (simp add: toy_sel bytes_of_string_def)
  have b64: "\<forall>w. Base64_parse toy (Base64_stringify toy w) = w"
    by (simp add: toy_sel bytes_of_string_of_bytes)
  have utf8: "\<forall>s w. Utf8_parse toy s = Some w \<longrightarrow> Utf8_stringify toy w = Some s"
    using toy_laws by (simp add: library_laws_def)
  have accepted: "Utf8_parse toy ''wrong'' \<noteq> None"
    by (simp add: toy_sel)
  have crypto: "let S = Base64_parse toy (the (salt password_envelope));
          N = (case iterations password_envelope of None \<Rightarrow> 150000 | Some i \<Rightarrow> i);
          kw = take 32 (drop 32 (PBKDF2 toy ''wrong'' S 16 N));
          kr = take 32 (drop 32 (PBKDF2 toy ''right'' S 16 N))
      in (Utf8_parse toy ''wrong'' \<noteq> Utf8_parse toy ''right'' \<longrightarrow> kw \<noteq> kr)
       \<and> (kw \<noteq> kr \<longrightarrow> HmacSHA256 toy (mac_input password_envelope) kw
                        \<noteq> HmacSHA256 toy (mac_input password_envelope) kr)"
    using keys macs by (simp add: Let_def password_envelope_facts(4,7))
  have link: "mode link_envelope \<noteq> ''password''"
    by (simp add: link_envelope_def)
  have differ: "''wrong'' \<noteq> ''right''" "''wrong'' \<noteq> []"
    by simp_all
  have "snd (decryptMessage toy (toy_stringify password_envelope)
         \<lparr> key = None, password = Some ''wrong'' \<rparr>) = Inl IntegrityFailed"
    using wrong_or_missing_credential [OF password_envelope_facts(1),
            of None "''right''" "''hi''" "''wrong''" None "\<lparr> key = None, password = None \<rparr>"]
          password_envelope_opens password_envelope_facts(3) differ accepted b64 utf8 crypto
    by blast
  moreover have "decryptMessage toy (toy_stringify link_envelope) \<lparr> key = None, password = None \<rparr>
       = ([], Inl MissingKey)"
    using wrong_or_missing_credential [OF link_envelope_facts(1),
            of None "''right''" "''hi''" "''wrong''" None "\<lparr> key = None, password = None \<rparr>"]
          link
    by simp
  ultimately show ?thesis
    using password_envelope_opens keys macs by blast
qed

text \<open>
  C3, as stated for every wrong password, fails for the empty string: it is not the
  password of the sample envelope, and the failure is \<open>PasswordRequired\<close>, not the
  integrity error.
\<close>

theorem empty_password_is_missing_credential:
  "snd (decryptMessage toy (toy_stringify password_envelope)
         \<lparr> key = None, password = Some ''right'' \<rparr>) = Inr ''hi''
   \<and> decryptMessage toy (toy_stringify password_envelope) \<lparr> key = None, password = Some [] \<rparr>
       = ([], Inl PasswordRequired)"
  using password_envelope_opens password_envelope_facts(1,3)
  by (simp add: decryptMessage_versioned resolveKeys_def)


subsection \<open>The iteration count\<close>

text \<open>
  C10. For a versioned password-mode envelope with a salt, opened with a non-empty
  password, \<open>decryptMessage\<close> makes exactly one key derivation, with the \<open>iterations\<close>
  field of the envelope as it is (any integer, so 1 is passed on as 1) or 150000 when the
  field is absent; the keys it resolves are the split of that \<open>PBKDF2\<close> output, and the
  MAC is computed under its second half.
\<close>

theorem iterations_taken_from_envelope:
  assumes "tryParseEnvelope C p = Some e" and "mode e = ''password''"
    and "password opts = Some pw" and "pw \<noteq> []"
    and "salt e = Some s" and "s \<noteq> []"
    and "n = (case iterations e of None \<Rightarrow> 150000 | Some i \<Rightarrow> i)"
  shows "filter is_Derive (fst (decryptMessage C p opts)) = [Derive pw (Base64_parse C s) n]
       \<and> snd (resolveKeys C e opts) = Inr (splitDerivedKey (PBKDF2 C pw (Base64_parse C s) 16 n))
       \<and> Mac (mac_input e) (snd (splitDerivedKey (PBKDF2 C pw (Base64_parse C s) 16 n)))
           \<in> set (fst (decryptMessage C p opts))"
proof -
  have opts: "opts = \<lparr> key = key opts, password = Some pw \<rparr>"
    using assms(3) by (cases opts) simp
  have rk: "resolveKeys C e opts =
      ([Derive pw (Base64_parse C s) n],
       Inr (splitDerivedKey (PBKDF2 C pw (Base64_parse C s) 16 n)))"
    using assms(2-7)
    by (simp add: resolveKeys_def deriveKeyFromPassword_def Let_def PBKDF2_ITERATIONS_def
        MASTER_KEY_BYTES_def split: option.splits)
  obtain ak hk where ks: "splitDerivedKey (PBKDF2 C pw (Base64_parse C s) 16 n) = (ak, hk)"
    by (cases "splitDerivedKey (PBKDF2 C pw (Base64_parse C s) 16 n)")
  have "fst (checkAndDecrypt C e ak hk) = [Mac (mac_input e) hk]
        \<or> fst (checkAndDecrypt C e ak hk) =
             [Mac (mac_input e) hk, Decrypt (Base64_parse C (ciphertext e)) ak (Base64_parse C (iv e))]"
    by (cases "computeIntegrity C (mode e) (ciphertext e) (iv e) (salt e) (envelope_createdAt e) hk = hmac e")
       (simp_all add: checkAndDecrypt_match checkAndDecrypt_mismatch)
  then show ?thesis
    using rk ks assms(1) by (auto simp: decryptMessage_versioned)
qed

text \<open>The sample password envelope claims one iteration.\<close>

theorem iterations_taken_from_envelope_witness:
  "filter is_Derive (fst (decryptMessage toy (toy_stringify password_envelope)
         \<lparr> key = None, password = Some ''right'' \<rparr>))
     = [Derive ''right'' (bytes_of_string ''s'') 1]"
  using iterations_taken_from_envelope [OF password_envelope_facts(1,3), of
      "\<lparr> key = None, password = Some ''right'' \<rparr>" "''right''" "''s''" 1]
    password_envelope_facts(4,7)
  by (simp add: toy_sel)

end
